theory Spec2Isabelle
  imports Main "HOL-Library.Word"
begin

unbundle bit_operations_syntax

section \<open>pkg info: the data of exec_info\<close>

text \<open>
  The development embeds \<^verbatim>\<open>exec_info\<close>, the \<^verbatim>\<open>pkg info\<close> command of the pkg
  command line tool. The function is one block of C; the embedding cuts it at its own
  seams (option switch, defaults, file mode, database access, the loop over the
  specifiers with its scan for version operators and its loop over the candidates) and
  keeps the names of the C variables.
\<close>

subsection \<open>Enumerations and exit codes\<close>

text \<open>\<^verbatim>\<open>enum sign\<close> of the source; the C variable \<^verbatim>\<open>int sign = 0\<close> starts as \<open>LT\<close>.\<close>

datatype sign = LT | LE | GT | GE | EQ

text \<open>\<^verbatim>\<open>match_t\<close> of pkg.h.\<close>

datatype match_t = MATCH_ALL | MATCH_EXACT | MATCH_GLOB | MATCH_REGEX | MATCH_CONDITION

text \<open>The return codes of libpkg that \<^verbatim>\<open>exec_info\<close> tells apart, with two of the others.\<close>

datatype pkg_error_t = EPKG_OK | EPKG_END | EPKG_WARN | EPKG_FATAL | EPKG_ENODB | EPKG_ENOACCESS

text \<open>The exit codes of sysexits.h.\<close>

definition EX_OK :: int where "EX_OK = 0"
definition EX_USAGE :: int where "EX_USAGE = 64"
definition EX_UNAVAILABLE :: int where "EX_UNAVAILABLE = 69"
definition EX_SOFTWARE :: int where "EX_SOFTWARE = 70"
definition EX_IOERR :: int where "EX_IOERR = 74"
definition EX_NOPERM :: int where "EX_NOPERM = 77"

subsection \<open>The category bits\<close>

text \<open>
  \<^verbatim>\<open>uint64_t opt\<close> is a set of category bits. The \<^verbatim>\<open>INFO_*\<close> masks are macros of
  pkgcli.h, which is not among the sources: the embedding takes them as a parameter.
\<close>

type_synonym opt_t = "64 word"

record info_consts =
  INFO_TAG_NAMEVER :: opt_t
  INFO_ANNOTATIONS :: opt_t
  INFO_MESSAGE :: opt_t
  INFO_DEPS :: opt_t
  INFO_COMMENT :: opt_t
  INFO_RDEPS :: opt_t
  INFO_LOCKED :: opt_t
  INFO_FILES :: opt_t
  INFO_DIRS :: opt_t
  INFO_SHLIBS_PROVIDED :: opt_t
  INFO_SHLIBS_REQUIRED :: opt_t
  INFO_FLATSIZE :: opt_t
  INFO_ORIGIN :: opt_t
  INFO_PREFIX :: opt_t
  INFO_FULL :: opt_t
  INFO_RAW :: opt_t
  INFO_ALL :: opt_t

subsection \<open>Packages, cursors and the collaborators\<close>

record pkg =
  pkg_name :: string
  pkg_version :: string

text \<open>
  A cursor \<^verbatim>\<open>struct pkgdb_it\<close> is the finite stream it will deliver: \<^verbatim>\<open>pkgdb_it_next\<close>
  returns \<open>EPKG_OK\<close> with each package of \<open>it_pkgs\<close> in turn, and then \<open>it_stop\<close>, the
  first code that is not \<open>EPKG_OK\<close> (\<open>EPKG_END\<close> for a clean end).
\<close>

record pkgdb_it =
  it_pkgs :: "pkg list"
  it_stop :: pkg_error_t

text \<open>
  What libpkg answers during one run: the results of \<^verbatim>\<open>pkgdb_access\<close> and
  \<^verbatim>\<open>pkgdb_open\<close>, the cursor \<^verbatim>\<open>pkgdb_query\<close> opens for a pattern and a match mode
  (\<open>None\<close> is the NULL cursor; the pattern \<open>None\<close> is the NULL pattern),
  \<^verbatim>\<open>pkg_version_cmp\<close>, and \<^verbatim>\<open>pkg_open\<close> on a package file (the flag says
  whether \<^verbatim>\<open>PKG_OPEN_MANIFEST_COMPACT\<close> was passed; \<open>None\<close> is a failure).
\<close>

record env =
  pkgdb_access :: pkg_error_t
  pkgdb_open :: pkg_error_t
  pkgdb_query :: "string option \<Rightarrow> match_t \<Rightarrow> pkgdb_it option"
  pkg_version_cmp :: "string \<Rightarrow> string \<Rightarrow> int"
  pkg_open :: "string \<Rightarrow> bool \<Rightarrow> pkg option"

subsection \<open>What the command does to the outside\<close>

datatype event =
    Usage
  | Warnx string
  | Stderr string
  | Set_case_sensitivity bool
  | Query "string option" match_t
  | Print pkg opt_t

record outcome =
  status :: int
  emitted :: "event list"

subsection \<open>The local variables\<close>

text \<open>
  The argument strings are changed in place, and \<^verbatim>\<open>pkgversion\<close> and \<^verbatim>\<open>pkgversion2\<close>
  point into them and live across specifiers. So \<open>argv\<close> is the store: one buffer for
  each argument left after the options, holding the bytes of the string without its
  terminator; a pointer is the index of a buffer and an offset into it, \<open>None\<close> is NULL.
  \<open>quiet\<close> is the global flag of the program; \<open>file_arg\<close> is the variable \<^verbatim>\<open>file\<close>.
\<close>

record locals =
  argv :: "string list"
  opt :: opt_t
  match :: match_t
  file_arg :: "string option"
  retcode :: int
  gotone :: bool
  sign :: sign
  sign2 :: sign
  pkgversion :: "(nat \<times> nat) option"
  pkgversion2 :: "(nat \<times> nat) option"
  pkg_exists :: bool
  origin_search :: bool
  e_flag :: bool
  quiet :: bool
  events :: "event list"

section \<open>C strings in a buffer\<close>

definition NUL :: char where
  "NUL = CHR 0x00"

text \<open>The byte at an offset; the byte at the end of the buffer is the terminator.\<close>

definition char_at :: "string \<Rightarrow> nat \<Rightarrow> char" where
  "char_at s j = (if j < length s then s ! j else NUL)"

text \<open>The C string that starts at an offset: the bytes up to the next NUL.\<close>

definition c_str :: "string \<Rightarrow> nat \<Rightarrow> string" where
  "c_str s off = takeWhile (\<lambda>c. c \<noteq> NUL) (drop off s)"

definition strlen :: "string \<Rightarrow> nat" where
  "strlen s = length (c_str s 0)"

definition strcspn :: "string \<Rightarrow> string \<Rightarrow> nat" where
  "strcspn s reject = length (takeWhile (\<lambda>c. c \<notin> set reject) (c_str s 0))"

text \<open>\<^verbatim>\<open>argv[i][j] = '\0'\<close>.\<close>

definition poke_nul :: "nat \<Rightarrow> nat \<Rightarrow> locals \<Rightarrow> locals" where
  "poke_nul i j L = L\<lparr>argv := (argv L)[i := (argv L ! i)[j := NUL]]\<rparr>"

text \<open>The string a version pointer points to.\<close>

definition deref :: "locals \<Rightarrow> nat \<times> nat \<Rightarrow> string" where
  "deref L p = c_str (argv L ! fst p) (snd p)"

section \<open>The scan for version operators (lines 249 to 321)\<close>

text \<open>
  The branch taken at an operator character while \<^verbatim>\<open>pkgversion\<close> is still NULL.
  \<open>s\<close> is the sign of the character and \<open>s'\<close> the sign stored when \<open>=\<close> follows:
  the source writes the branch three times, with \<open>LT\<close> and \<open>LE\<close>, \<open>GT\<close> and \<open>GE\<close>,
  \<open>EQ\<close> and \<open>EQ\<close>. The result is the new state and the new \<open>j\<close>.
\<close>

definition first_version :: "nat \<Rightarrow> nat \<Rightarrow> sign \<Rightarrow> sign \<Rightarrow> locals \<Rightarrow> locals \<times> nat" where
  "first_version i j s s' L =
     (let L1 = (poke_nul i j (L\<lparr>pkgversion := Some (i, j), sign := s\<rparr>))
                 \<lparr>pkgversion := Some (i, j + 1)\<rparr>
      in if char_at (argv L1 ! i) (j + 1) = CHR ''=''
         then (L1\<lparr>pkgversion := Some (i, j + 2), sign := s'\<rparr>, j + 1)
         else (L1, j))"

text \<open>
  The branch taken when \<^verbatim>\<open>pkgversion\<close> is already set. It fills \<^verbatim>\<open>pkgversion2\<close> and
  \<^verbatim>\<open>sign2\<close>, but when \<open>=\<close> follows the source assigns \<^verbatim>\<open>sign\<close>, not \<^verbatim>\<open>sign2\<close>
  (lines 260, 282 and 304).
\<close>

definition second_version :: "nat \<Rightarrow> nat \<Rightarrow> sign \<Rightarrow> sign \<Rightarrow> locals \<Rightarrow> locals \<times> nat" where
  "second_version i j s s' L =
     (let L1 = (poke_nul i j (L\<lparr>pkgversion2 := Some (i, j), sign2 := s\<rparr>))
                 \<lparr>pkgversion2 := Some (i, j + 1)\<rparr>
      in if char_at (argv L1 ! i) (j + 1) = CHR ''=''
         then (L1\<lparr>pkgversion2 := Some (i, j + 2), sign := s'\<rparr>, j + 1)
         else (L1, j))"

text \<open>One turn of the \<^verbatim>\<open>while\<close> body before its final \<^verbatim>\<open>j++\<close>.\<close>

definition scan_step :: "nat \<Rightarrow> nat \<Rightarrow> locals \<Rightarrow> locals \<times> nat" where
  "scan_step i j L =
     (let c = char_at (argv L ! i) j in
      if c = CHR ''<'' then
        (if pkgversion L \<noteq> None then second_version i j LT LE L
         else first_version i j LT LE L)
      else if c = CHR ''>'' then
        (if pkgversion L \<noteq> None then second_version i j GT GE L
         else first_version i j GT GE L)
      else if c = CHR ''='' then
        (if pkgversion L \<noteq> None then second_version i j EQ EQ L
         else first_version i j EQ EQ L)
      else (L, j))"

lemma length_poke_nul: "length (argv (poke_nul i j L) ! i) = length (argv L ! i)"
  by (cases "i < length (argv L)") (simp_all add: poke_nul_def list_update_beyond)

lemma scan_step_length:
  "length (argv (fst (scan_step i j L)) ! i) = length (argv L ! i)"
  by (simp add: scan_step_def first_version_def second_version_def Let_def length_poke_nul)

lemma scan_step_index: "j \<le> snd (scan_step i j L)"
  by (simp add: scan_step_def first_version_def second_version_def Let_def)

text \<open>\<^verbatim>\<open>while (pkgname[j] != '\0') { ...; j++; }\<close> on the buffer \<open>i\<close>.\<close>

function scan :: "nat \<Rightarrow> nat \<Rightarrow> locals \<Rightarrow> locals" where
  "scan i j L =
     (if char_at (argv L ! i) j \<noteq> NUL
      then scan i (Suc (snd (scan_step i j L))) (fst (scan_step i j L))
      else L)"
  by pat_completeness auto
termination
proof (relation "measure (\<lambda>(i, j, L). length (argv L ! i) - j)")
  show "wf (measure (\<lambda>(i, j, L). length (argv L ! i) - j))"
    by simp
next
  fix i j :: nat and L :: locals
  assume "char_at (argv L ! i) j \<noteq> NUL"
  then have "j < length (argv L ! i)"
    by (simp add: char_at_def split: if_splits)
  moreover have "j \<le> snd (scan_step i j L)"
    by (rule scan_step_index)
  ultimately show "((i, Suc (snd (scan_step i j L)), fst (scan_step i j L)), (i, j, L))
      \<in> measure (\<lambda>(i, j, L). length (argv L ! i) - j)"
    by (simp add: scan_step_length)
qed

section \<open>The loop over the candidates (lines 353 to 413)\<close>

text \<open>
  One \<^verbatim>\<open>switch\<close> on the result of \<^verbatim>\<open>pkg_version_cmp\<close>: \<open>False\<close> when the branch
  runs \<^verbatim>\<open>gotone = false; continue;\<close>, \<open>True\<close> when control leaves the switch (by
  \<^verbatim>\<open>break\<close>, or because no case label fits the value).
\<close>

definition version_switch :: "int \<Rightarrow> sign \<Rightarrow> bool" where
  "version_switch c s =
     (if c = - 1 then \<not> (s \<noteq> LT \<and> s \<noteq> LE)
      else if c = 0 then \<not> (s \<noteq> LE \<and> s \<noteq> GE \<and> s \<noteq> EQ)
      else if c = 1 then \<not> (s \<noteq> GT \<and> s \<noteq> GE)
      else True)"

text \<open>
  The \<^verbatim>\<open>while\<close> over the packages the cursor delivers. \<^verbatim>\<open>gotone\<close> is set at the top of
  each turn and cleared again by a turn that drops its candidate.
\<close>

fun it_loop :: "env \<Rightarrow> pkg list \<Rightarrow> locals \<Rightarrow> locals" where
  "it_loop E [] L = L"
| "it_loop E (p # ps) L =
     (let L1 = L\<lparr>gotone := True\<rparr>;
          version = pkg_version p
      in if pkgversion L1 \<noteq> None \<and>
            \<not> version_switch (pkg_version_cmp E version (deref L1 (the (pkgversion L1)))) (sign L1)
         then it_loop E ps (L1\<lparr>gotone := False\<rparr>)
         else if pkgversion2 L1 \<noteq> None \<and>
            \<not> version_switch (pkg_version_cmp E version (deref L1 (the (pkgversion2 L1)))) (sign2 L1)
         then it_loop E ps (L1\<lparr>gotone := False\<rparr>)
         else if pkg_exists L1
         then it_loop E ps (L1\<lparr>retcode := EX_OK\<rparr>)
         else it_loop E ps (L1\<lparr>events := events L1 @ [Print p (opt L1)]\<rparr>))"

section \<open>One specifier (the body of the do-while, lines 239 to 423)\<close>

text \<open>Lines 333 to 340: the compatibility seed of \<^verbatim>\<open>gotone\<close> for \<^verbatim>\<open>-O\<close>.\<close>

definition seed_gotone :: "locals \<Rightarrow> locals" where
  "seed_gotone L = (if origin_search L then L\<lparr>gotone := True\<rparr> else L)"

text \<open>Lines 342 to 350: the full record for a single argument without glob characters.\<close>

definition full_version :: "info_consts \<Rightarrow> nat \<Rightarrow> nat \<Rightarrow> locals \<Rightarrow> locals" where
  "full_version K argc i L =
     (if argc = 1 \<and> \<not> origin_search L \<and> \<not> quiet L \<and> \<not> e_flag L \<and>
         match L = MATCH_GLOB \<and>
         strcspn (argv L ! i) ''*[]{}()'' = strlen (argv L ! i) \<and>
         opt L = INFO_TAG_NAMEVER K
      then L\<lparr>opt := opt L OR INFO_FULL K\<rparr> else L)"

text \<open>Lines 411 to 413: a cursor that did not stop at \<open>EPKG_END\<close>.\<close>

definition it_end :: "pkgdb_it \<Rightarrow> locals \<Rightarrow> locals" where
  "it_end it L = (if it_stop it \<noteq> EPKG_END then L\<lparr>retcode := EX_IOERR\<rparr> else L)"

text \<open>Lines 415 to 419: nothing matched.\<close>

definition no_match :: "nat \<Rightarrow> locals \<Rightarrow> locals" where
  "no_match i L =
     (if retcode L = EX_OK \<and> \<not> gotone L \<and> match L \<noteq> MATCH_ALL
      then (if \<not> quiet L
            then L\<lparr>events := events L @
                    [Warnx (''No package(s) matching '' @ c_str (argv L ! i) 0)]\<rparr>
            else L)\<lparr>retcode := EX_SOFTWARE\<rparr>
      else L)"

text \<open>
  From \<^verbatim>\<open>pkgdb_query\<close> to the end of the body. \<open>argc\<close> is the count left after the
  options, \<open>i\<close> the index of the specifier, \<open>pkgname\<close> the pattern (\<open>None\<close> for NULL).
  A NULL cursor returns from \<^verbatim>\<open>exec_info\<close> at once.
\<close>

definition spec_query ::
  "env \<Rightarrow> info_consts \<Rightarrow> nat \<Rightarrow> nat \<Rightarrow> string option \<Rightarrow> locals \<Rightarrow> outcome + locals" where
  "spec_query E K argc i pkgname L =
     (case pkgdb_query E pkgname (match L) of
        None \<Rightarrow> Inl \<lparr>status = EX_IOERR, emitted = events L @ [Query pkgname (match L)]\<rparr>
      | Some it \<Rightarrow>
          Inr (no_match i (it_end it (it_loop E (it_pkgs it)
                 (full_version K argc i (seed_gotone
                    (L\<lparr>events := events L @ [Query pkgname (match L)]\<rparr>)))))))"

text \<open>Lines 242 to 247: a trailing slash is cut off.\<close>

definition strip_slash :: "nat \<Rightarrow> locals \<Rightarrow> locals" where
  "strip_slash i L =
     (let n = strlen (argv L ! i)
      in if 0 < n \<and> char_at (argv L ! i) (n - 1) = CHR ''/'' then poke_nul i (n - 1) L else L)"

text \<open>
  The whole body. \<open>Inr\<close> is the state at the loop condition, reached at the end of the
  body or by \<^verbatim>\<open>continue\<close>; \<open>Inl\<close> is a \<^verbatim>\<open>return\<close>. The two tests \<^verbatim>\<open>argc > 0\<close>
  of lines 246 and 249 are one test here.

  Two reads of the source are outside the buffer model and never decide anything:
  for an empty argument \<^verbatim>\<open>pkgname[strlen(pkgname) - 1]\<close> is the byte before the string,
  which in the argument block is the terminator of the string before it, so the test
  for a slash fails (\<open>0 < n\<close> in \<open>strip_slash\<close>); and \<^verbatim>\<open>pkgname\<close> is NULL only
  when \<open>argc\<close> is 0, where line 174 has left \<open>MATCH_ALL\<close> (or file mode has
  returned), so that \<^verbatim>\<open>pkgname[0]\<close> on line 323 is not evaluated.
\<close>

definition spec_body ::
  "env \<Rightarrow> info_consts \<Rightarrow> nat \<Rightarrow> nat \<Rightarrow> locals \<Rightarrow> outcome + locals" where
  "spec_body E K argc i L0 =
     (let L1 = L0\<lparr>gotone := False\<rparr>
      in if 0 < argc
         then (let L3 = scan i 0 (strip_slash i L1)
               in if match L3 \<noteq> MATCH_ALL \<and> char_at (argv L3 ! i) 0 = NUL
                  then Inr (L3\<lparr>events := events L3 @ [Stderr ''Pattern must not be empty.'']\<rparr>)
                  else spec_query E K argc i (Some (c_str (argv L3 ! i) 0)) L3)
         else spec_query E K argc i None L1)"

text \<open>\<^verbatim>\<open>i = 0; do { ... i++; } while (i < argc);\<close> and the final \<^verbatim>\<open>return (retcode)\<close>.\<close>

function info_loop :: "env \<Rightarrow> info_consts \<Rightarrow> nat \<Rightarrow> nat \<Rightarrow> locals \<Rightarrow> outcome" where
  "info_loop E K argc i L =
     (case spec_body E K argc i L of
        Inl r \<Rightarrow> r
      | Inr L' \<Rightarrow>
          if Suc i < argc then info_loop E K argc (Suc i) L'
          else \<lparr>status = retcode L', emitted = events L'\<rparr>)"
  by pat_completeness auto
termination
  by (relation "measure (\<lambda>(E, K, argc, i, L). argc - i)") auto

section \<open>Before the loop\<close>

subsection \<open>The option switch (lines 90 to 166)\<close>

text \<open>
  \<^verbatim>\<open>getopt\<close> is libc: the embedding starts from what it returns, the option
  characters in order, each with its \<^verbatim>\<open>optarg\<close>. \<open>None\<close> is the \<^verbatim>\<open>default\<close> case.
\<close>

definition getopt_switch :: "info_consts \<Rightarrow> char \<Rightarrow> string \<Rightarrow> locals \<Rightarrow> locals option" where
  "getopt_switch K ch optarg L =
     (if ch = CHR ''a'' then Some (L\<lparr>match := MATCH_ALL\<rparr>)
      else if ch = CHR ''A'' then Some (L\<lparr>opt := opt L OR INFO_ANNOTATIONS K\<rparr>)
      else if ch = CHR ''O'' then Some (L\<lparr>origin_search := True\<rparr>)
      else if ch = CHR ''e'' then Some (L\<lparr>pkg_exists := True, retcode := 1\<rparr>)
      else if ch = CHR ''g'' then Some (L\<lparr>match := MATCH_GLOB\<rparr>)
      else if ch = CHR ''i'' then Some (L\<lparr>events := events L @ [Set_case_sensitivity False]\<rparr>)
      else if ch = CHR ''x'' then Some (L\<lparr>match := MATCH_REGEX\<rparr>)
      else if ch = CHR ''D'' then Some (L\<lparr>opt := opt L OR INFO_MESSAGE K\<rparr>)
      else if ch = CHR ''d'' then Some (L\<lparr>opt := opt L OR INFO_DEPS K\<rparr>)
      else if ch = CHR ''I'' then Some (L\<lparr>opt := opt L OR INFO_COMMENT K\<rparr>)
      else if ch = CHR ''r'' then Some (L\<lparr>opt := opt L OR INFO_RDEPS K\<rparr>)
      else if ch = CHR ''k'' then Some (L\<lparr>opt := opt L OR INFO_LOCKED K\<rparr>)
      else if ch = CHR ''l'' then Some (L\<lparr>opt := opt L OR INFO_FILES K\<rparr>)
      else if ch = CHR ''b'' then Some (L\<lparr>opt := opt L OR INFO_SHLIBS_PROVIDED K\<rparr>)
      else if ch = CHR ''B'' then Some (L\<lparr>opt := opt L OR INFO_SHLIBS_REQUIRED K\<rparr>)
      else if ch = CHR ''s'' then Some (L\<lparr>opt := opt L OR INFO_FLATSIZE K\<rparr>)
      else if ch = CHR ''E'' then Some (L\<lparr>e_flag := True\<rparr>)
      else if ch = CHR ''q'' then Some (L\<lparr>quiet := True\<rparr>)
      else if ch = CHR ''o'' then Some (L\<lparr>opt := opt L OR INFO_ORIGIN K\<rparr>)
      else if ch = CHR ''p'' then Some (L\<lparr>opt := opt L OR INFO_PREFIX K\<rparr>)
      else if ch = CHR ''f'' then Some (L\<lparr>opt := opt L OR INFO_FULL K\<rparr>)
      else if ch = CHR ''F'' then Some (L\<lparr>file_arg := Some optarg\<rparr>)
      else if ch = CHR ''R'' then Some (L\<lparr>opt := opt L OR INFO_RAW K\<rparr>)
      else None)"

fun getopt_loop :: "info_consts \<Rightarrow> (char \<times> string) list \<Rightarrow> locals \<Rightarrow> outcome + locals" where
  "getopt_loop K [] L = Inr L"
| "getopt_loop K ((ch, optarg) # rest) L =
     (case getopt_switch K ch optarg L of
        None \<Rightarrow> Inl \<lparr>status = EX_USAGE, emitted = events L @ [Usage]\<rparr>
      | Some L' \<Rightarrow> getopt_loop K rest L')"

subsection \<open>Defaults and compatibility (lines 182 to 199)\<close>

definition info_defaults :: "info_consts \<Rightarrow> locals \<Rightarrow> locals" where
  "info_defaults K L =
     (let L1 = (if \<not> origin_search L \<and> opt L AND INFO_ALL K = 0 \<and> match L = MATCH_ALL \<and>
                   \<not> quiet L
                then L\<lparr>opt := opt L OR INFO_COMMENT K\<rparr> else L);
          L2 = (if origin_search L1
                then (if quiet L1
                      then L1\<lparr>opt := INFO_TAG_NAMEVER K, quiet := False\<rparr>
                      else L1\<lparr>opt := INFO_TAG_NAMEVER K OR INFO_COMMENT K\<rparr>)
                else L1)
      in if match L2 = MATCH_ALL \<and> opt L2 = INFO_TAG_NAMEVER K
         then L2\<lparr>quiet := False\<rparr> else L2)"

subsection \<open>File mode (lines 201 to 216)\<close>

definition info_file :: "env \<Rightarrow> info_consts \<Rightarrow> string \<Rightarrow> locals \<Rightarrow> outcome" where
  "info_file E K f L =
     (let L1 = (if opt L = INFO_TAG_NAMEVER K then L\<lparr>opt := opt L OR INFO_FULL K\<rparr> else L);
          compact = (opt L1 AND (INFO_RAW K OR INFO_FILES K OR INFO_DIRS K) = 0)
      in case pkg_open E f compact of
           None \<Rightarrow> \<lparr>status = 1, emitted = events L1\<rparr>
         | Some p \<Rightarrow> \<lparr>status = 0, emitted = events L1 @ [Print p (opt L1)]\<rparr>)"

subsection \<open>Database access, then the loop (lines 218 to 429)\<close>

definition info_db :: "env \<Rightarrow> info_consts \<Rightarrow> nat \<Rightarrow> locals \<Rightarrow> outcome" where
  "info_db E K argc L =
     (if pkgdb_access E = EPKG_ENOACCESS
      then \<lparr>status = EX_NOPERM, emitted = events L @
              [Warnx ''Insufficient privileges to query the package database'']\<rparr>
      else if pkgdb_access E = EPKG_ENODB
      then (if match L = MATCH_ALL then \<lparr>status = EX_OK, emitted = events L\<rparr>
            else if origin_search L then \<lparr>status = EX_OK, emitted = events L\<rparr>
            else \<lparr>status = EX_UNAVAILABLE,
                  emitted = (if \<not> quiet L then events L @ [Warnx ''No packages installed'']
                             else events L)\<rparr>)
      else if pkgdb_access E \<noteq> EPKG_OK then \<lparr>status = EX_IOERR, emitted = events L\<rparr>
      else if pkgdb_open E \<noteq> EPKG_OK then \<lparr>status = EX_IOERR, emitted = events L\<rparr>
      else info_loop E K argc 0 L)"

section \<open>exec_info\<close>

text \<open>
  One invocation: \<open>inv_argc\<close> is \<^verbatim>\<open>argc\<close> on entry, \<open>inv_opts\<close> what \<^verbatim>\<open>getopt\<close>
  returns, \<open>inv_args\<close> the arguments from \<^verbatim>\<open>optind\<close> on (so that \<^verbatim>\<open>argc - optind\<close>
  is their number), \<open>inv_quiet\<close> the global \<^verbatim>\<open>quiet\<close> on entry.
\<close>

record invocation =
  inv_argc :: nat
  inv_opts :: "(char \<times> string) list"
  inv_args :: "string list"
  inv_quiet :: bool

definition init_locals :: "info_consts \<Rightarrow> invocation \<Rightarrow> locals" where
  "init_locals K call =
     \<lparr>argv = inv_args call, opt = INFO_TAG_NAMEVER K, match = MATCH_GLOB, file_arg = None,
      retcode = 0, gotone = False, sign = LT, sign2 = LT, pkgversion = None,
      pkgversion2 = None, pkg_exists = False, origin_search = False, e_flag = False,
      quiet = inv_quiet call, events = []\<rparr>"

text \<open>Lines 168 and 169: without arguments the command lists everything.\<close>

definition force_all :: "nat \<Rightarrow> locals \<Rightarrow> locals" where
  "force_all argc0 L =
     (if argc0 = 1 \<or> (argc0 = 2 \<and> quiet L) then L\<lparr>match := MATCH_ALL\<rparr> else L)"

text \<open>Lines 168 to 216, then the database.\<close>

definition info_after_getopt :: "env \<Rightarrow> info_consts \<Rightarrow> nat \<Rightarrow> locals \<Rightarrow> outcome" where
  "info_after_getopt E K argc0 L0 =
     (let L1 = force_all argc0 L0;
          argc = length (argv L1)
      in if argc = 0 \<and> file_arg L1 = None \<and> match L1 \<noteq> MATCH_ALL
         then (if origin_search L1 then \<lparr>status = EX_OK, emitted = events L1\<rparr>
               else \<lparr>status = EX_USAGE, emitted = events L1 @ [Usage]\<rparr>)
         else (let L2 = info_defaults K L1
               in case file_arg L2 of
                    Some f \<Rightarrow> info_file E K f L2
                  | None \<Rightarrow> info_db E K argc L2))"

definition exec_info :: "env \<Rightarrow> info_consts \<Rightarrow> invocation \<Rightarrow> outcome" where
  "exec_info E K call =
     (case getopt_loop K (inv_opts call) (init_locals K call) of
        Inl r \<Rightarrow> r
      | Inr L \<Rightarrow> info_after_getopt E K (inv_argc call) L)"

section \<open>The evaluator as the specification words it\<close>

text \<open>
  The constraints in force: a constraint is present when its version pointer is not
  NULL, and consists of the recorded operator and the string pointed to.
\<close>

definition constraints :: "locals \<Rightarrow> (sign \<times> string) list" where
  "constraints L =
     (case pkgversion L of None \<Rightarrow> [] | Some p \<Rightarrow> [(sign L, deref L p)]) @
     (case pkgversion2 L of None \<Rightarrow> [] | Some p \<Rightarrow> [(sign2 L, deref L p)])"

text \<open>
  Section 4.3 of the specification: a comparison result of -1 implies an operator among
  \<open>LT\<close> and \<open>LE\<close>, 0 implies one among \<open>LE\<close>, \<open>GE\<close> and \<open>EQ\<close>, +1 implies one
  among \<open>GT\<close> and \<open>GE\<close>; with two constraints both must keep the candidate.
\<close>

definition constraint_keeps :: "int \<Rightarrow> sign \<Rightarrow> bool" where
  "constraint_keeps c op =
     ((c = - 1 \<longrightarrow> op \<in> {LT, LE}) \<and> (c = 0 \<longrightarrow> op \<in> {LE, GE, EQ}) \<and>
      (c = 1 \<longrightarrow> op \<in> {GT, GE}))"

definition evaluator_keeps :: "env \<Rightarrow> locals \<Rightarrow> string \<Rightarrow> bool" where
  "evaluator_keeps E L v =
     (\<forall>(op, bound) \<in> set (constraints L). constraint_keeps (pkg_version_cmp E v bound) op)"


text \<open>A specifier without a version operator: none of the characters the scan looks for.\<close>

definition no_operator :: "string \<Rightarrow> bool" where
  "no_operator s = (\<forall>c \<in> set s. c \<noteq> CHR ''<'' \<and> c \<noteq> CHR ''>'' \<and> c \<noteq> CHR ''='')"

section \<open>A header, a comparator and a database for the examples\<close>

text \<open>
  Modelled from the spec: the values of the \<^verbatim>\<open>INFO_*\<close> macros of pkgcli.h, which is
  not among the sources. The options are a bit set with one bit for each category, the
  tag \<open>INFO_TAG_NAMEVER\<close> and the raw flag lie outside the categories \<open>INFO_ALL\<close>, and
  the full detail \<open>INFO_FULL\<close> is the set of categories of the full display, the
  comment among them. The general theorems below hold for every header; this one is
  used at the concrete inputs.
\<close>

definition pkgcli_h :: info_consts where
  "pkgcli_h =
     \<lparr>INFO_TAG_NAMEVER = 0x4000000000000000, INFO_ANNOTATIONS = 0x8000, INFO_MESSAGE = 0x80000,
      INFO_DEPS = 0x100000, INFO_COMMENT = 0x800, INFO_RDEPS = 0x200000, INFO_LOCKED = 0x8000000,
      INFO_FILES = 0x400000, INFO_DIRS = 0x800000, INFO_SHLIBS_PROVIDED = 0x4000,
      INFO_SHLIBS_REQUIRED = 0x2000, INFO_FLATSIZE = 0x10000, INFO_ORIGIN = 0x8,
      INFO_PREFIX = 0x20, INFO_FULL = 0x7FFFF, INFO_RAW = 0x8000000000000000,
      INFO_ALL = 0xFFFFFFF\<rparr>"

text \<open>
  Modelled from the spec: \<^verbatim>\<open>pkg_version_cmp\<close> of libpkg, which is not among the
  sources. The spec asks for a three-way comparison with results -1, 0 and +1 in the
  order of versions, not of strings. This one compares dotted decimal versions number
  by number, a missing number counting as 0.
\<close>

fun version_parts :: "nat \<Rightarrow> string \<Rightarrow> nat list" where
  "version_parts acc [] = [acc]"
| "version_parts acc (c # cs) =
     (if c = CHR ''.'' then acc # version_parts 0 cs
      else version_parts (acc * 10 + (of_char c - 48)) cs)"

fun cmp_parts :: "nat list \<Rightarrow> nat list \<Rightarrow> int" where
  "cmp_parts [] [] = 0"
| "cmp_parts [] (y # ys) = (if y = 0 then cmp_parts [] ys else - 1)"
| "cmp_parts (x # xs) [] = (if x = 0 then cmp_parts xs [] else 1)"
| "cmp_parts (x # xs) (y # ys) =
     (if x < y then - 1 else if y < x then 1 else cmp_parts xs ys)"

definition dotted_version_cmp :: "string \<Rightarrow> string \<Rightarrow> int" where
  "dotted_version_cmp a b = cmp_parts (version_parts 0 a) (version_parts 0 b)"

text \<open>
  A database with two packages. A query in mode \<open>MATCH_ALL\<close> delivers both, the
  patterns \<open>libfoo\<close> and \<open>libbar\<close> deliver the package of that name, the glob
  \<open>lib*\<close> delivers both, and every other pattern delivers nothing; each cursor ends
  cleanly.
\<close>

definition libfoo :: pkg where
  "libfoo = \<lparr>pkg_name = ''libfoo'', pkg_version = ''2.0''\<rparr>"

definition libbar :: pkg where
  "libbar = \<lparr>pkg_name = ''libbar'', pkg_version = ''0.5''\<rparr>"

definition demo_query :: "string option \<Rightarrow> match_t \<Rightarrow> pkgdb_it option" where
  "demo_query pat m =
     Some \<lparr>it_pkgs =
             (if m = MATCH_ALL then [libfoo, libbar]
              else if pat = Some ''libfoo'' then [libfoo]
              else if pat = Some ''libbar'' then [libbar]
              else if pat = Some ''lib*'' \<and> m = MATCH_GLOB then [libfoo, libbar]
              else []),
           it_stop = EPKG_END\<rparr>"

definition demo_env :: env where
  "demo_env =
     \<lparr>pkgdb_access = EPKG_OK, pkgdb_open = EPKG_OK, pkgdb_query = demo_query,
      pkg_version_cmp = dotted_version_cmp, pkg_open = (\<lambda>f c. None)\<rparr>"

text \<open>\<^verbatim>\<open>pkg info\<close> with the given options and arguments, each option a word of its own.\<close>

definition pkg_info :: "(char \<times> string) list \<Rightarrow> string list \<Rightarrow> invocation" where
  "pkg_info os as =
     \<lparr>inv_argc = 1 + length os + length as, inv_opts = os, inv_args = as, inv_quiet = False\<rparr>"

text \<open>The state after the scan of the range specifier \<^verbatim>\<open>lib*>=1.0<3.0\<close>.\<close>

definition range_spec :: locals where
  "range_spec = scan 0 0 (init_locals pkgcli_h (pkg_info [] [''lib*>=1.0<3.0'']))"

text \<open>The states at the loop for \<^verbatim>\<open>pkg info libfoo\<close> and for \<^verbatim>\<open>pkg info 'lib*'\<close>.\<close>

definition single_arg :: locals where
  "single_arg = init_locals pkgcli_h (pkg_info [] [''libfoo''])"

definition glob_arg :: locals where
  "glob_arg = init_locals pkgcli_h (pkg_info [] [''lib*''])"

text \<open>A third package, above the range, for a stream handed to the loop directly.\<close>

definition libbaz :: pkg where
  "libbaz = \<lparr>pkg_name = ''libbaz'', pkg_version = ''3.0''\<rparr>"

text \<open>The state after the options of \<^verbatim>\<open>pkg info -a -q\<close>.\<close>

definition all_quiet :: locals where
  "all_quiet = (init_locals pkgcli_h (pkg_info [(CHR ''a'', []), (CHR ''q'', [])] []))
                 \<lparr>match := MATCH_ALL, quiet := True\<rparr>"

section \<open>Frame lemmas: what each part leaves alone\<close>

declare scan.simps [simp del]

lemma version_switch_keeps: "version_switch c s = constraint_keeps c s"
  by (cases s) (simp_all add: version_switch_def constraint_keeps_def)

lemma scan_step_frame [simp]:
  "opt (fst (scan_step i j L)) = opt L"
  "match (fst (scan_step i j L)) = match L"
  "file_arg (fst (scan_step i j L)) = file_arg L"
  "retcode (fst (scan_step i j L)) = retcode L"
  "gotone (fst (scan_step i j L)) = gotone L"
  "pkg_exists (fst (scan_step i j L)) = pkg_exists L"
  "origin_search (fst (scan_step i j L)) = origin_search L"
  "e_flag (fst (scan_step i j L)) = e_flag L"
  "quiet (fst (scan_step i j L)) = quiet L"
  "events (fst (scan_step i j L)) = events L"
  "length (argv (fst (scan_step i j L))) = length (argv L)"
  by (simp_all add: scan_step_def first_version_def second_version_def poke_nul_def Let_def)

lemma scan_unfold:
  "char_at (argv L ! i) j \<noteq> NUL \<Longrightarrow>
     scan i j L = scan i (Suc (snd (scan_step i j L))) (fst (scan_step i j L))"
  "char_at (argv L ! i) j = NUL \<Longrightarrow> scan i j L = L"
  by (subst scan.simps, simp)+

lemma scan_frame [simp]:
  "opt (scan i j L) = opt L"
  "match (scan i j L) = match L"
  "file_arg (scan i j L) = file_arg L"
  "retcode (scan i j L) = retcode L"
  "gotone (scan i j L) = gotone L"
  "pkg_exists (scan i j L) = pkg_exists L"
  "origin_search (scan i j L) = origin_search L"
  "e_flag (scan i j L) = e_flag L"
  "quiet (scan i j L) = quiet L"
  "events (scan i j L) = events L"
  "length (argv (scan i j L)) = length (argv L)"
  by (induction i j L rule: scan.induct;
      case_tac "char_at (argv L ! i) j = NUL"; simp add: scan_unfold)+

lemma seed_gotone_frame [simp]:
  "argv (seed_gotone L) = argv L"
  "opt (seed_gotone L) = opt L"
  "match (seed_gotone L) = match L"
  "file_arg (seed_gotone L) = file_arg L"
  "retcode (seed_gotone L) = retcode L"
  "sign (seed_gotone L) = sign L"
  "sign2 (seed_gotone L) = sign2 L"
  "pkgversion (seed_gotone L) = pkgversion L"
  "pkgversion2 (seed_gotone L) = pkgversion2 L"
  "pkg_exists (seed_gotone L) = pkg_exists L"
  "origin_search (seed_gotone L) = origin_search L"
  "e_flag (seed_gotone L) = e_flag L"
  "quiet (seed_gotone L) = quiet L"
  "events (seed_gotone L) = events L"
  by (simp_all add: seed_gotone_def)

lemma full_version_frame [simp]:
  "argv (full_version K argc i L) = argv L"
  "match (full_version K argc i L) = match L"
  "file_arg (full_version K argc i L) = file_arg L"
  "retcode (full_version K argc i L) = retcode L"
  "gotone (full_version K argc i L) = gotone L"
  "sign (full_version K argc i L) = sign L"
  "sign2 (full_version K argc i L) = sign2 L"
  "pkgversion (full_version K argc i L) = pkgversion L"
  "pkgversion2 (full_version K argc i L) = pkgversion2 L"
  "pkg_exists (full_version K argc i L) = pkg_exists L"
  "origin_search (full_version K argc i L) = origin_search L"
  "e_flag (full_version K argc i L) = e_flag L"
  "quiet (full_version K argc i L) = quiet L"
  "events (full_version K argc i L) = events L"
  by (simp_all add: full_version_def)

lemma it_end_frame [simp]:
  "argv (it_end it L) = argv L"
  "opt (it_end it L) = opt L"
  "match (it_end it L) = match L"
  "file_arg (it_end it L) = file_arg L"
  "gotone (it_end it L) = gotone L"
  "sign (it_end it L) = sign L"
  "sign2 (it_end it L) = sign2 L"
  "pkgversion (it_end it L) = pkgversion L"
  "pkgversion2 (it_end it L) = pkgversion2 L"
  "pkg_exists (it_end it L) = pkg_exists L"
  "origin_search (it_end it L) = origin_search L"
  "e_flag (it_end it L) = e_flag L"
  "quiet (it_end it L) = quiet L"
  "events (it_end it L) = events L"
  by (simp_all add: it_end_def)

lemma no_match_frame [simp]:
  "argv (no_match i L) = argv L"
  "opt (no_match i L) = opt L"
  "match (no_match i L) = match L"
  "file_arg (no_match i L) = file_arg L"
  "gotone (no_match i L) = gotone L"
  "sign (no_match i L) = sign L"
  "sign2 (no_match i L) = sign2 L"
  "pkgversion (no_match i L) = pkgversion L"
  "pkgversion2 (no_match i L) = pkgversion2 L"
  "pkg_exists (no_match i L) = pkg_exists L"
  "origin_search (no_match i L) = origin_search L"
  "e_flag (no_match i L) = e_flag L"
  "quiet (no_match i L) = quiet L"
  by (simp_all add: no_match_def)

lemma strip_slash_frame [simp]:
  "opt (strip_slash i L) = opt L"
  "match (strip_slash i L) = match L"
  "file_arg (strip_slash i L) = file_arg L"
  "retcode (strip_slash i L) = retcode L"
  "gotone (strip_slash i L) = gotone L"
  "sign (strip_slash i L) = sign L"
  "sign2 (strip_slash i L) = sign2 L"
  "pkgversion (strip_slash i L) = pkgversion L"
  "pkgversion2 (strip_slash i L) = pkgversion2 L"
  "pkg_exists (strip_slash i L) = pkg_exists L"
  "origin_search (strip_slash i L) = origin_search L"
  "e_flag (strip_slash i L) = e_flag L"
  "quiet (strip_slash i L) = quiet L"
  "events (strip_slash i L) = events L"
  by (simp_all add: strip_slash_def poke_nul_def Let_def)

lemma strip_slash_length [simp]: "length (argv (strip_slash i L)) = length (argv L)"
  by (simp add: strip_slash_def poke_nul_def Let_def)

lemma it_loop_frame [simp]:
  "argv (it_loop E ps L) = argv L"
  "opt (it_loop E ps L) = opt L"
  "match (it_loop E ps L) = match L"
  "file_arg (it_loop E ps L) = file_arg L"
  "sign (it_loop E ps L) = sign L"
  "sign2 (it_loop E ps L) = sign2 L"
  "pkgversion (it_loop E ps L) = pkgversion L"
  "pkgversion2 (it_loop E ps L) = pkgversion2 L"
  "pkg_exists (it_loop E ps L) = pkg_exists L"
  "origin_search (it_loop E ps L) = origin_search L"
  "e_flag (it_loop E ps L) = e_flag L"
  "quiet (it_loop E ps L) = quiet L"
  by (induction ps arbitrary: L; simp add: Let_def)+

lemma evaluator_keeps_update [simp]:
  "evaluator_keeps E (L\<lparr>gotone := g\<rparr>) v = evaluator_keeps E L v"
  "evaluator_keeps E (L\<lparr>retcode := r\<rparr>) v = evaluator_keeps E L v"
  "evaluator_keeps E (L\<lparr>events := ev\<rparr>) v = evaluator_keeps E L v"
  by (simp_all add: evaluator_keeps_def constraints_def deref_def)

lemma it_loop_turn:
  "it_loop E (p # ps) L =
     it_loop E ps
       (if evaluator_keeps E L (pkg_version p)
        then (if pkg_exists L then L\<lparr>gotone := True, retcode := EX_OK\<rparr>
              else L\<lparr>gotone := True, events := events L @ [Print p (opt L)]\<rparr>)
        else L\<lparr>gotone := False\<rparr>)"
  by (cases "pkgversion L"; cases "pkgversion2 L")
     (simp_all add: Let_def evaluator_keeps_def constraints_def deref_def version_switch_keeps)

lemma it_loop_events_exists: "pkg_exists L \<Longrightarrow> events (it_loop E ps L) = events L"
  by (induction ps arbitrary: L) (simp_all add: Let_def)

lemma it_loop_retcode_exists:
  "pkg_exists L \<Longrightarrow> retcode (it_loop E ps L) =
     (if \<exists>p \<in> set ps. evaluator_keeps E L (pkg_version p) then EX_OK else retcode L)"
proof (induction ps arbitrary: L)
  case Nil
  then show ?case by simp
next
  case (Cons p ps)
  show ?case
    unfolding it_loop_turn using Cons.prems
    by (auto simp add: Cons.IH)
qed


declare info_loop.simps [simp del]

lemma spec_query_frame:
  assumes "spec_query E K argc i pat L = Inr L'"
  shows "pkg_exists L' = pkg_exists L \<and> match L' = match L \<and>
    origin_search L' = origin_search L \<and> quiet L' = quiet L \<and> e_flag L' = e_flag L \<and>
    argv L' = argv L \<and> pkgversion L' = pkgversion L \<and> pkgversion2 L' = pkgversion2 L \<and>
    sign L' = sign L \<and> sign2 L' = sign2 L"
  using assms by (auto simp add: spec_query_def split: option.splits)

lemma spec_query_Inl: "spec_query E K argc i pat L = Inl r \<Longrightarrow> status r = EX_IOERR"
  by (auto simp add: spec_query_def split: option.splits)

lemma no_match_failed: "retcode L \<noteq> EX_OK \<Longrightarrow> no_match i L = L"
  by (simp add: no_match_def)

lemma it_loop_retcode_plain: "\<not> pkg_exists L \<Longrightarrow> retcode (it_loop E ps L) = retcode L"
  by (induction ps arbitrary: L) (simp_all add: Let_def)

lemma spec_query_retcode_plain:
  assumes "spec_query E K argc i pat L = Inr L'" "\<not> pkg_exists L" "retcode L \<noteq> EX_OK"
  shows "retcode L' = retcode L \<or> retcode L' = EX_IOERR"
proof -
  from assms(1) obtain it where it: "pkgdb_query E pat (match L) = Some it"
    and L': "L' = no_match i (it_end it (it_loop E (it_pkgs it)
                 (full_version K argc i (seed_gotone
                    (L\<lparr>events := events L @ [Query pat (match L)]\<rparr>)))))"
    by (auto simp add: spec_query_def split: option.splits)
  define L7 where "L7 = it_loop E (it_pkgs it)
                 (full_version K argc i (seed_gotone
                    (L\<lparr>events := events L @ [Query pat (match L)]\<rparr>)))"
  have "retcode L7 = retcode L"
    unfolding L7_def using assms(2) by (subst it_loop_retcode_plain) simp_all
  then have "retcode (it_end it L7) \<noteq> EX_OK"
    and "retcode (it_end it L7) = retcode L \<or> retcode (it_end it L7) = EX_IOERR"
    using assms(3) by (simp_all add: it_end_def EX_OK_def EX_IOERR_def)
  then show ?thesis
    unfolding L' L7_def [symmetric] by (simp add: no_match_failed)
qed

lemma spec_body_Inl: "spec_body E K argc i L = Inl r \<Longrightarrow> status r = EX_IOERR"
  by (auto simp add: spec_body_def Let_def split: if_splits dest: spec_query_Inl)

lemma spec_body_flags:
  assumes "spec_body E K argc i L = Inr L'"
  shows "pkg_exists L' = pkg_exists L \<and> match L' = match L \<and>
    origin_search L' = origin_search L \<and> quiet L' = quiet L \<and> e_flag L' = e_flag L \<and>
    length (argv L') = length (argv L)"
  using assms
  by (auto simp add: spec_body_def Let_def split: if_splits dest!: spec_query_frame)

lemma spec_body_retcode_plain:
  assumes "spec_body E K argc i L = Inr L'" "\<not> pkg_exists L" "retcode L \<noteq> EX_OK"
  shows "retcode L' = retcode L \<or> retcode L' = EX_IOERR"
  using assms
  by (auto simp add: spec_body_def Let_def split: if_splits dest!: spec_query_retcode_plain)

section \<open>The status across specifiers\<close>

text \<open>
  C1 (as amended). \<^verbatim>\<open>retcode\<close> is one variable for the whole run and no specifier resets
  it. Outside exists-only mode, once it holds a failure code, every later specifier
  leaves it alone or overwrites it with the I/O error code: the final status is that
  failure code or \<open>EX_IOERR\<close>, never success again. So a specifier that matches
  nothing followed by one that matches ends in \<open>EX_SOFTWARE\<close>.
\<close>

theorem status_never_reset:
  "\<not> pkg_exists L \<Longrightarrow> retcode L \<noteq> EX_OK \<Longrightarrow>
   status (info_loop E K argc i L) = retcode L \<or> status (info_loop E K argc i L) = EX_IOERR"
proof (induction E K argc i L rule: info_loop.induct)
  case (1 E K argc i L)
  show ?case
  proof (cases "spec_body E K argc i L")
    case (Inl r)
    then have "info_loop E K argc i L = r"
      by (subst info_loop.simps) simp
    with Inl show ?thesis
      by (simp add: spec_body_Inl)
  next
    case (Inr L')
    have ex: "\<not> pkg_exists L'"
      using spec_body_flags [OF Inr] "1.prems" by simp
    have rc: "retcode L' = retcode L \<or> retcode L' = EX_IOERR"
      using spec_body_retcode_plain [OF Inr] "1.prems" by simp
    then have nz: "retcode L' \<noteq> EX_OK"
      using "1.prems" by (auto simp add: EX_OK_def EX_IOERR_def)
    show ?thesis
    proof (cases "Suc i < argc")
      case True
      then have "info_loop E K argc i L = info_loop E K argc (Suc i) L'"
        using Inr by (subst info_loop.simps) simp
      with "1.IH" [OF Inr True ex nz] rc show ?thesis
        by auto
    next
      case False
      then have "info_loop E K argc i L = \<lparr>status = retcode L', emitted = events L'\<rparr>"
        using Inr by (subst info_loop.simps) simp
      with rc show ?thesis by auto
    qed
  qed
qed

theorem status_never_reset_witness:
  "\<not> pkg_exists ((init_locals pkgcli_h (pkg_info [] [''nomatch'', ''libfoo'']))
        \<lparr>retcode := EX_SOFTWARE\<rparr>) \<and>
   retcode ((init_locals pkgcli_h (pkg_info [] [''nomatch'', ''libfoo'']))
        \<lparr>retcode := EX_SOFTWARE\<rparr>) \<noteq> EX_OK \<and>
   (status (info_loop demo_env pkgcli_h 2 1
       ((init_locals pkgcli_h (pkg_info [] [''nomatch'', ''libfoo'']))
          \<lparr>retcode := EX_SOFTWARE\<rparr>)) = EX_SOFTWARE \<or>
    status (info_loop demo_env pkgcli_h 2 1
       ((init_locals pkgcli_h (pkg_info [] [''nomatch'', ''libfoo'']))
          \<lparr>retcode := EX_SOFTWARE\<rparr>)) = EX_IOERR)"
  using status_never_reset [of "(init_locals pkgcli_h (pkg_info [] [''nomatch'', ''libfoo'']))
          \<lparr>retcode := EX_SOFTWARE\<rparr>" demo_env pkgcli_h 2 1]
  by (simp add: init_locals_def pkg_info_def EX_SOFTWARE_def EX_OK_def EX_IOERR_def)

text \<open>
  C1 fails as stated: \<^verbatim>\<open>pkg info nomatch libfoo\<close>. The first specifier matches nothing
  and sets \<open>EX_SOFTWARE\<close>; the second matches and is printed, and alone it would end in
  success; the run ends in \<open>EX_SOFTWARE\<close>.
\<close>

theorem last_status_counterexample:
  "exec_info demo_env pkgcli_h (pkg_info [] [''nomatch'', ''libfoo'']) =
     \<lparr>status = EX_SOFTWARE,
      emitted = [Query (Some ''nomatch'') MATCH_GLOB, Warnx ''No package(s) matching nomatch'',
                 Query (Some ''libfoo'') MATCH_GLOB, Print libfoo (INFO_TAG_NAMEVER pkgcli_h)]\<rparr> \<and>
   status (exec_info demo_env pkgcli_h (pkg_info [] [''libfoo''])) = EX_OK \<and>
   EX_SOFTWARE \<noteq> EX_OK"
  by code_simp

section \<open>The scan for version operators\<close>

text \<open>
  C2 (the code departs from the claim). On \<^verbatim>\<open>pkg>1.0<=2.0\<close> the second operator is
  followed by \<open>=\<close>. The scan leaves \<open>LT\<close> in \<^verbatim>\<open>sign2\<close> and writes the upgraded
  \<open>LE\<close> into \<^verbatim>\<open>sign\<close>, over the \<open>GT\<close> of the first constraint: the constraints are
  \<open>(LE, 1.0)\<close> and \<open>(LT, 2.0)\<close>, where the claim has \<open>(GT, 1.0)\<close> and \<open>(LE, 2.0)\<close>.
\<close>

theorem second_upgrade_hits_first_sign:
  "(let L = scan 0 0 (init_locals pkgcli_h (pkg_info [] [''pkg>1.0<=2.0'']))
    in (c_str (argv L ! 0) 0, constraints L)) = (''pkg'', [(LE, ''1.0''), (LT, ''2.0'')])"
  by code_simp

section \<open>The evaluator\<close>

lemma it_loop_closed:
  "it_loop E ps L =
     L\<lparr>gotone := (if ps = [] then gotone L else evaluator_keeps E L (pkg_version (last ps))),
       retcode := (if pkg_exists L \<and> (\<exists>p \<in> set ps. evaluator_keeps E L (pkg_version p))
                   then EX_OK else retcode L),
       events := events L @
                 (if pkg_exists L then []
                  else map (\<lambda>p. Print p (opt L))
                         (filter (\<lambda>p. evaluator_keeps E L (pkg_version p)) ps))\<rparr>"
proof (induction ps arbitrary: L)
  case Nil
  show ?case by simp
next
  case (Cons p ps)
  show ?case
    unfolding it_loop_turn by (subst Cons.IH) auto
qed

text \<open>
  C4. The loop over the candidates keeps a candidate exactly when each constraint in
  force keeps it in the sense of the specification: a result of -1 of the comparison
  implies \<open>LT\<close> or \<open>LE\<close>, 0 implies \<open>LE\<close>, \<open>GE\<close> or \<open>EQ\<close>, +1 implies \<open>GT\<close> or
  \<open>GE\<close>, and two constraints are taken together by conjunction. For every stream of
  candidates and every state, the loop changes three variables and nothing else: the
  formatter receives the kept candidates, in the order of the stream, and no other (in
  exists-only mode it receives none, and a kept candidate sets the status to success
  instead); \<^verbatim>\<open>gotone\<close> tells whether the last candidate was kept. The constraints in
  force are those of the state, whichever specifier recorded them.
\<close>

theorem evaluator_keeps_stream:
  "it_loop E ps L =
     L\<lparr>gotone := (if ps = [] then gotone L else evaluator_keeps E L (pkg_version (last ps))),
       retcode := (if pkg_exists L \<and> (\<exists>p \<in> set ps. evaluator_keeps E L (pkg_version p))
                   then EX_OK else retcode L),
       events := events L @
                 (if pkg_exists L then []
                  else map (\<lambda>p. Print p (opt L))
                         (filter (\<lambda>p. evaluator_keeps E L (pkg_version p)) ps))\<rparr>"
  by (rule it_loop_closed)

theorem evaluator_keeps_stream_witness:
  "constraints range_spec = [(GE, ''1.0''), (LT, ''3.0'')] \<and>
   \<not> evaluator_keeps demo_env range_spec (pkg_version libbar) \<and>
   evaluator_keeps demo_env range_spec (pkg_version libfoo) \<and>
   \<not> evaluator_keeps demo_env range_spec (pkg_version libbaz) \<and>
   it_loop demo_env [libbar, libfoo, libbaz] range_spec =
     range_spec\<lparr>gotone := False, events := [Print libfoo (INFO_TAG_NAMEVER pkgcli_h)]\<rparr>"
proof -
  have c: "constraints range_spec = [(GE, ''1.0''), (LT, ''3.0'')]" by code_simp
  have d: "\<not> evaluator_keeps demo_env range_spec (pkg_version libbar)" by code_simp
  have k: "evaluator_keeps demo_env range_spec (pkg_version libfoo)" by code_simp
  have u: "\<not> evaluator_keeps demo_env range_spec (pkg_version libbaz)" by code_simp
  have e: "\<not> pkg_exists range_spec" by code_simp
  have o: "opt range_spec = INFO_TAG_NAMEVER pkgcli_h" by code_simp
  have v: "events range_spec = []" by code_simp
  have "it_loop demo_env [libbar, libfoo, libbaz] range_spec =
     range_spec\<lparr>gotone := False, events := [Print libfoo (INFO_TAG_NAMEVER pkgcli_h)]\<rparr>"
    using evaluator_keeps_stream [of demo_env "[libbar, libfoo, libbaz]" range_spec] d k u e o v
    by simp
  with c d k u show ?thesis by simp
qed

section \<open>The flag for a match\<close>

text \<open>
  C3 (the code departs from the claim). On \<^verbatim>\<open>pkg info 'lib*>1.0'\<close> the cursor delivers
  \<open>libfoo\<close> 2.0, which survives the constraint and is printed, and then \<open>libbar\<close>
  0.5, which is dropped. The drop clears \<^verbatim>\<open>gotone\<close>: the flag is true after
  \<open>libfoo\<close> alone and false after \<open>libfoo\<close> and \<open>libbar\<close>, although a candidate
  survived, and the run reports that nothing matched.
\<close>

theorem dropped_candidate_clears_gotone:
  "(let L = scan 0 0 (init_locals pkgcli_h (pkg_info [] [''lib*>1.0'']))
    in constraints L = [(GT, ''1.0'')] \<and>
       gotone (it_loop demo_env [libfoo] L) \<and>
       \<not> gotone (it_loop demo_env [libbar] L) \<and>
       \<not> gotone (it_loop demo_env [libfoo, libbar] L)) \<and>
   exec_info demo_env pkgcli_h (pkg_info [] [''lib*>1.0'']) =
     \<lparr>status = EX_SOFTWARE,
      emitted = [Query (Some ''lib*'') MATCH_GLOB, Print libfoo (INFO_TAG_NAMEVER pkgcli_h),
                 Warnx ''No package(s) matching lib*'']\<rparr>"
  by code_simp

section \<open>The default category\<close>

lemma or_and_absorb: "(a OR b) AND b = (b :: opt_t)"
  by (auto simp add: bit_eq_iff bit_and_iff bit_or_iff)

text \<open>
  C5 (as amended). The comment is the default category when the match mode is
  \<open>MATCH_ALL\<close>: with no category bit set, origin search off and quiet off, the
  defaults add \<open>INFO_COMMENT\<close>. Under any other match mode, origin search off, the
  defaults change nothing.
\<close>

theorem comment_default_in_all_mode:
  "(match L = MATCH_ALL \<and> \<not> origin_search L \<and> \<not> quiet L \<and> opt L AND INFO_ALL K = 0
      \<longrightarrow> opt (info_defaults K L) AND INFO_COMMENT K = INFO_COMMENT K) \<and>
   (match L \<noteq> MATCH_ALL \<and> \<not> origin_search L \<longrightarrow> info_defaults K L = L)"
proof (intro conjI impI)
  assume a: "match L = MATCH_ALL \<and> \<not> origin_search L \<and> \<not> quiet L \<and> opt L AND INFO_ALL K = 0"
  then have "opt (info_defaults K L) = opt L OR INFO_COMMENT K"
    by (simp add: info_defaults_def Let_def)
  then show "opt (info_defaults K L) AND INFO_COMMENT K = INFO_COMMENT K"
    by (simp add: or_and_absorb)
next
  assume "match L \<noteq> MATCH_ALL \<and> \<not> origin_search L"
  then show "info_defaults K L = L"
    by (simp add: info_defaults_def Let_def)
qed

theorem comment_default_in_all_mode_witness:
  "match ((init_locals pkgcli_h (pkg_info [(CHR ''a'', [])] []))\<lparr>match := MATCH_ALL\<rparr>) = MATCH_ALL \<and>
   opt (info_defaults pkgcli_h ((init_locals pkgcli_h (pkg_info [(CHR ''a'', [])] []))\<lparr>match := MATCH_ALL\<rparr>))
     AND INFO_COMMENT pkgcli_h = INFO_COMMENT pkgcli_h \<and>
   info_defaults pkgcli_h (init_locals pkgcli_h (pkg_info [] [''libfoo''])) =
     init_locals pkgcli_h (pkg_info [] [''libfoo''])"
  using comment_default_in_all_mode [of "(init_locals pkgcli_h (pkg_info [(CHR ''a'', [])] []))\<lparr>match := MATCH_ALL\<rparr>" pkgcli_h]
    comment_default_in_all_mode [of "init_locals pkgcli_h (pkg_info [] [''libfoo''])" pkgcli_h]
  by (simp add: init_locals_def pkg_info_def pkgcli_h_def)

text \<open>
  C5 fails as stated: \<^verbatim>\<open>pkg info -x libfoo\<close> has no category flag, is not in mode
  \<open>MATCH_ALL\<close> and is not quiet, and its record is printed with the bare name and
  version tag, which has no comment bit.
\<close>

theorem comment_default_counterexample:
  "exec_info demo_env pkgcli_h (pkg_info [(CHR ''x'', [])] [''libfoo'']) =
     \<lparr>status = EX_OK,
      emitted = [Query (Some ''libfoo'') MATCH_REGEX, Print libfoo (INFO_TAG_NAMEVER pkgcli_h)]\<rparr> \<and>
   INFO_TAG_NAMEVER pkgcli_h AND INFO_COMMENT pkgcli_h = 0 \<and> INFO_COMMENT pkgcli_h \<noteq> 0"
  by code_simp

section \<open>Quiet in mode ALL\<close>

lemma info_defaults_quiet_all:
  "match L = MATCH_ALL \<Longrightarrow> opt L = INFO_TAG_NAMEVER K \<Longrightarrow>
     info_defaults K (L\<lparr>quiet := True\<rparr>) = L\<lparr>quiet := False\<rparr>"
  by (simp add: info_defaults_def Let_def)

lemma quiet_update_same: "quiet X \<Longrightarrow> X\<lparr>quiet := True\<rparr> = X"
  by (cases X) simp

text \<open>
  C9 (as amended). When, after the defaults, the match mode is \<open>MATCH_ALL\<close> and the
  category set is the bare name and version tag, \<^verbatim>\<open>quiet\<close> is off, and this is settled
  before file mode and the database. A quiet run in mode \<open>MATCH_ALL\<close> with the bare
  category set leaves the defaults with \<^verbatim>\<open>quiet\<close> off and everything else as it was:
  its category set stays the bare tag, without the comment.
\<close>

theorem all_mode_forces_quiet_off:
  "(match (info_defaults K L) = MATCH_ALL \<and> opt (info_defaults K L) = INFO_TAG_NAMEVER K
      \<longrightarrow> \<not> quiet (info_defaults K L)) \<and>
   (match L = MATCH_ALL \<and> opt L = INFO_TAG_NAMEVER K \<and> quiet L
      \<longrightarrow> info_defaults K L = L\<lparr>quiet := False\<rparr>)"
proof (intro conjI impI)
  assume "match (info_defaults K L) = MATCH_ALL \<and> opt (info_defaults K L) = INFO_TAG_NAMEVER K"
  then show "\<not> quiet (info_defaults K L)"
    by (simp add: info_defaults_def Let_def split: if_splits)
next
  assume a: "match L = MATCH_ALL \<and> opt L = INFO_TAG_NAMEVER K \<and> quiet L"
  then have "info_defaults K (L\<lparr>quiet := True\<rparr>) = L\<lparr>quiet := False\<rparr>"
    by (simp add: info_defaults_quiet_all)
  moreover have "L\<lparr>quiet := True\<rparr> = L"
    using a by (simp add: quiet_update_same)
  ultimately show "info_defaults K L = L\<lparr>quiet := False\<rparr>"
    by simp
qed

theorem all_mode_forces_quiet_off_witness:
  "getopt_loop pkgcli_h [(CHR ''a'', []), (CHR ''q'', [])]
      (init_locals pkgcli_h (pkg_info [(CHR ''a'', []), (CHR ''q'', [])] [])) = Inr all_quiet \<and>
   match all_quiet = MATCH_ALL \<and> opt all_quiet = INFO_TAG_NAMEVER pkgcli_h \<and> quiet all_quiet \<and>
   info_defaults pkgcli_h all_quiet = all_quiet\<lparr>quiet := False\<rparr> \<and>
   \<not> quiet (info_defaults pkgcli_h all_quiet)"
proof -
  have g: "getopt_loop pkgcli_h [(CHR ''a'', []), (CHR ''q'', [])]
      (init_locals pkgcli_h (pkg_info [(CHR ''a'', []), (CHR ''q'', [])] [])) = Inr all_quiet"
    by (simp add: getopt_switch_def all_quiet_def)
  have h: "match all_quiet = MATCH_ALL \<and> opt all_quiet = INFO_TAG_NAMEVER pkgcli_h \<and> quiet all_quiet"
    by (simp add: all_quiet_def init_locals_def)
  from all_mode_forces_quiet_off [of pkgcli_h all_quiet] h
  have "info_defaults pkgcli_h all_quiet = all_quiet\<lparr>quiet := False\<rparr>"
    by blast
  with g h show ?thesis by simp
qed

text \<open>
  C9 fails as stated: \<^verbatim>\<open>pkg info -a -q\<close> prints its records with the bare name and
  version tag, and \<^verbatim>\<open>pkg info -a\<close> prints them with the comment, which line 186 adds
  only when \<^verbatim>\<open>quiet\<close> is off. The two outputs differ.
\<close>

theorem quiet_all_output_counterexample:
  "exec_info demo_env pkgcli_h (pkg_info [(CHR ''a'', []), (CHR ''q'', [])] []) =
     \<lparr>status = EX_OK,
      emitted = [Query None MATCH_ALL, Print libfoo (INFO_TAG_NAMEVER pkgcli_h),
                 Print libbar (INFO_TAG_NAMEVER pkgcli_h)]\<rparr> \<and>
   exec_info demo_env pkgcli_h (pkg_info [(CHR ''a'', [])] []) =
     \<lparr>status = EX_OK,
      emitted = [Query None MATCH_ALL,
                 Print libfoo (INFO_TAG_NAMEVER pkgcli_h OR INFO_COMMENT pkgcli_h),
                 Print libbar (INFO_TAG_NAMEVER pkgcli_h OR INFO_COMMENT pkgcli_h)]\<rparr> \<and>
   INFO_TAG_NAMEVER pkgcli_h OR INFO_COMMENT pkgcli_h \<noteq> INFO_TAG_NAMEVER pkgcli_h"
  by code_simp

section \<open>Empty specifiers\<close>

lemma strlen_Nil [simp]: "strlen [] = 0"
  by (simp add: strlen_def c_str_def)

lemma strlen_slash [simp]: "strlen ''/'' = 1"
  by (simp add: strlen_def c_str_def NUL_def)

lemma spec_body_empty:
  assumes "match L \<noteq> MATCH_ALL" "i < argc" "argc \<le> length (argv L)"
    "argv L ! i = [] \<or> argv L ! i = ''/''"
  shows "\<exists>L'. spec_body E K argc i L = Inr L' \<and> retcode L' = retcode L \<and>
      events L' = events L @ [Stderr ''Pattern must not be empty.''] \<and>
      match L' = match L \<and> length (argv L') = length (argv L) \<and>
      (\<forall>k. k \<noteq> i \<longrightarrow> argv L' ! k = argv L ! k)"
proof -
  define L1 where "L1 = L\<lparr>gotone := False\<rparr>"
  define L2 where "L2 = strip_slash i L1"
  have len: "i < length (argv L1)"
    using assms by (simp add: L1_def)
  have nul: "char_at (argv L2 ! i) 0 = NUL"
  proof (rule disjE [OF assms(4)])
    assume "argv L ! i = []"
    then show ?thesis
      by (simp add: L2_def L1_def strip_slash_def char_at_def Let_def)
  next
    assume "argv L ! i = ''/''"
    then show ?thesis
      using len by (simp add: L2_def L1_def strip_slash_def poke_nul_def char_at_def Let_def)
  qed
  have other: "\<forall>k. k \<noteq> i \<longrightarrow> argv L2 ! k = argv L ! k"
    by (simp add: L2_def L1_def strip_slash_def poke_nul_def Let_def)
  have m2: "match L2 = match L"
    by (simp add: L2_def L1_def)
  have scan: "scan i 0 L2 = L2"
    using nul by (rule scan_unfold(2))
  have "spec_body E K argc i L =
      Inr (L2\<lparr>events := events L2 @ [Stderr ''Pattern must not be empty.'']\<rparr>)"
    unfolding spec_body_def Let_def L1_def [symmetric] L2_def [symmetric] scan
    using assms(1,2) nul m2 by simp
  with other show ?thesis
    by (simp add: L2_def L1_def)
qed

lemma info_loop_step:
  "spec_body E K argc i L = Inr L' \<Longrightarrow>
     info_loop E K argc i L =
       (if Suc i < argc then info_loop E K argc (Suc i) L'
        else \<lparr>status = retcode L', emitted = events L'\<rparr>)"
  "spec_body E K argc i L = Inl r \<Longrightarrow> info_loop E K argc i L = r"
  by (subst info_loop.simps, simp)+

lemma info_loop_all_empty:
  "match L \<noteq> MATCH_ALL \<Longrightarrow> i < argc \<Longrightarrow> argc \<le> length (argv L) \<Longrightarrow>
   (\<forall>k. i \<le> k \<and> k < argc \<longrightarrow> argv L ! k = [] \<or> argv L ! k = ''/'') \<Longrightarrow>
   info_loop E K argc i L =
     \<lparr>status = retcode L,
      emitted = events L @ replicate (argc - i) (Stderr ''Pattern must not be empty.'')\<rparr>"
proof (induction E K argc i L rule: info_loop.induct)
  case (1 E K argc i L)
  from "1.prems" have here: "argv L ! i = [] \<or> argv L ! i = ''/''"
    by simp
  from spec_body_empty [OF "1.prems"(1,2,3) here, of E K]
  obtain L' where body: "spec_body E K argc i L = Inr L'"
    and rc: "retcode L' = retcode L"
    and ev: "events L' = events L @ [Stderr ''Pattern must not be empty.'']"
    and m: "match L' = match L" and len: "length (argv L') = length (argv L)"
    and other: "\<forall>k. k \<noteq> i \<longrightarrow> argv L' ! k = argv L ! k"
    by blast
  show ?case
  proof (cases "Suc i < argc")
    case True
    have rest: "\<forall>k. Suc i \<le> k \<and> k < argc \<longrightarrow> argv L' ! k = [] \<or> argv L' ! k = ''/''"
      using other "1.prems"(4) by auto
    have "info_loop E K argc (Suc i) L' =
        \<lparr>status = retcode L',
         emitted = events L' @ replicate (argc - Suc i) (Stderr ''Pattern must not be empty.'')\<rparr>"
      using "1.IH" [OF body True _ True _ rest] m len "1.prems"(1,3) by simp
    moreover have "argc - i = Suc (argc - Suc i)"
      using True by simp
    ultimately show ?thesis
      using info_loop_step(1) [OF body] True rc ev by simp
  next
    case False
    with "1.prems"(2) have "argc - i = Suc 0" by simp
    then show ?thesis
      using info_loop_step(1) [OF body] False rc ev by simp
  qed
qed

text \<open>
  C10. Under a match mode other than \<open>MATCH_ALL\<close>, a specifier that is empty once its
  trailing slash is cut off (the argument is empty or is a single slash) is skipped:
  the body leaves \<^verbatim>\<open>retcode\<close> as it was and adds nothing to the trace but the message
  (no query is made), and the loop goes on with the next specifier or, after the last,
  returns \<^verbatim>\<open>retcode\<close>. A batch of such specifiers only returns the status it started
  with.
\<close>

theorem empty_pattern_skipped:
  assumes "match L \<noteq> MATCH_ALL" "i < argc" "argc \<le> length (argv L)"
    "argv L ! i = [] \<or> argv L ! i = ''/''"
  shows "\<exists>L'. spec_body E K argc i L = Inr L' \<and> retcode L' = retcode L \<and>
      events L' = events L @ [Stderr ''Pattern must not be empty.''] \<and>
      info_loop E K argc i L =
        (if Suc i < argc then info_loop E K argc (Suc i) L'
         else \<lparr>status = retcode L, emitted = events L'\<rparr>) \<and>
      ((\<forall>k. i < k \<and> k < argc \<longrightarrow> argv L ! k = [] \<or> argv L ! k = ''/'') \<longrightarrow>
       info_loop E K argc i L =
         \<lparr>status = retcode L,
          emitted = events L @ replicate (argc - i) (Stderr ''Pattern must not be empty.'')\<rparr>)"
proof -
  from spec_body_empty [OF assms, of E K]
  obtain L' where body: "spec_body E K argc i L = Inr L'"
    and rc: "retcode L' = retcode L"
    and ev: "events L' = events L @ [Stderr ''Pattern must not be empty.'']"
    by blast
  have batch: "info_loop E K argc i L =
         \<lparr>status = retcode L,
          emitted = events L @ replicate (argc - i) (Stderr ''Pattern must not be empty.'')\<rparr>"
    if "\<forall>k. i < k \<and> k < argc \<longrightarrow> argv L ! k = [] \<or> argv L ! k = ''/''"
  proof -
    have "\<forall>k. i \<le> k \<and> k < argc \<longrightarrow> argv L ! k = [] \<or> argv L ! k = ''/''"
      using that assms(4) by (auto simp add: le_less)
    then show ?thesis
      by (rule info_loop_all_empty [OF assms(1,2,3)])
  qed
  show ?thesis
    using body rc ev info_loop_step(1) [OF body] batch by auto
qed

theorem empty_pattern_skipped_witness:
  "match (init_locals pkgcli_h (pkg_info [] ['''', ''/''])) \<noteq> MATCH_ALL \<and>
   info_loop demo_env pkgcli_h 2 0 (init_locals pkgcli_h (pkg_info [] ['''', ''/''])) =
     \<lparr>status = EX_OK,
      emitted = [Stderr ''Pattern must not be empty.'', Stderr ''Pattern must not be empty.'']\<rparr>"
  using empty_pattern_skipped [of "init_locals pkgcli_h (pkg_info [] ['''', ''/''])" 0 2 demo_env pkgcli_h]
  by (auto simp add: init_locals_def pkg_info_def EX_OK_def less_Suc_eq numeral_2_eq_2)

section \<open>Exists-only mode\<close>

lemma getopt_switch_exists:
  "getopt_switch K ch a L0 = Some L1 \<Longrightarrow>
     (pkg_exists L0 \<and> retcode L0 = 1 \<longrightarrow> pkg_exists L1 \<and> retcode L1 = 1) \<and>
     (ch = CHR ''e'' \<longrightarrow> pkg_exists L1 \<and> retcode L1 = 1) \<and>
     (\<forall>p c. Print p c \<notin> set (events L0) \<longrightarrow> Print p c \<notin> set (events L1))"
  by (auto simp add: getopt_switch_def split: if_splits)

lemma getopt_loop_exists_kept:
  "getopt_loop K os L0 = Inr L \<Longrightarrow> pkg_exists L0 \<and> retcode L0 = 1 \<Longrightarrow>
     pkg_exists L \<and> retcode L = 1"
proof (induction os arbitrary: L0)
  case Nil
  then show ?case by simp
next
  case (Cons x os)
  obtain ch a where x: "x = (ch, a)" by (cases x)
  from Cons.prems(1) obtain L1 where sw: "getopt_switch K ch a L0 = Some L1"
    and rest: "getopt_loop K os L1 = Inr L"
    by (auto simp add: x split: option.splits)
  from getopt_switch_exists [OF sw] Cons.prems(2) have "pkg_exists L1 \<and> retcode L1 = 1"
    by simp
  then show ?case
    by (rule Cons.IH [OF rest])
qed

lemma getopt_loop_exists:
  "getopt_loop K os L0 = Inr L \<Longrightarrow> CHR ''e'' \<in> fst ` set os \<Longrightarrow>
     pkg_exists L \<and> retcode L = 1"
proof (induction os arbitrary: L0)
  case Nil
  then show ?case by simp
next
  case (Cons x os)
  obtain ch a where x: "x = (ch, a)" by (cases x)
  from Cons.prems(1) obtain L1 where sw: "getopt_switch K ch a L0 = Some L1"
    and rest: "getopt_loop K os L1 = Inr L"
    by (auto simp add: x split: option.splits)
  show ?case
  proof (cases "ch = CHR ''e''")
    case True
    with getopt_switch_exists [OF sw] have "pkg_exists L1 \<and> retcode L1 = 1"
      by simp
    then show ?thesis
      by (rule getopt_loop_exists_kept [OF rest])
  next
    case False
    with Cons.prems(2) have "CHR ''e'' \<in> fst ` set os"
      by (simp add: x)
    then show ?thesis
      by (rule Cons.IH [OF rest])
  qed
qed

lemma getopt_loop_no_print:
  "getopt_loop K os L0 = Inr L \<Longrightarrow> \<forall>p c. Print p c \<notin> set (events L0) \<Longrightarrow>
     \<forall>p c. Print p c \<notin> set (events L)"
proof (induction os arbitrary: L0)
  case Nil
  then show ?case by simp
next
  case (Cons x os)
  obtain ch a where x: "x = (ch, a)" by (cases x)
  from Cons.prems(1) obtain L1 where sw: "getopt_switch K ch a L0 = Some L1"
    and rest: "getopt_loop K os L1 = Inr L"
    by (auto simp add: x split: option.splits)
  from getopt_switch_exists [OF sw] Cons.prems(2) have "\<forall>p c. Print p c \<notin> set (events L1)"
    by simp
  then show ?case
    by (rule Cons.IH [OF rest])
qed

lemma getopt_loop_Inl_no_print:
  "getopt_loop K os L0 = Inl r \<Longrightarrow> \<forall>p c. Print p c \<notin> set (events L0) \<Longrightarrow>
     \<forall>p c. Print p c \<notin> set (emitted r)"
proof (induction os arbitrary: L0)
  case Nil
  then show ?case by simp
next
  case (Cons x os)
  obtain ch a where x: "x = (ch, a)" by (cases x)
  show ?case
  proof (cases "getopt_switch K ch a L0")
    case None
    with Cons.prems show ?thesis
      by (auto simp add: x)
  next
    case (Some L1)
    with Cons.prems(1) have rest: "getopt_loop K os L1 = Inl r"
      by (simp add: x)
    from getopt_switch_exists [OF Some] Cons.prems(2) have "\<forall>p c. Print p c \<notin> set (events L1)"
      by simp
    then show ?thesis
      by (rule Cons.IH [OF rest])
  qed
qed

lemma no_match_events:
  "Print p c \<in> set (events (no_match i L)) \<longleftrightarrow> Print p c \<in> set (events L)"
  by (simp add: no_match_def)

lemma it_end_events [simp]: "events (it_end it L) = events L"
  by (simp add: it_end_def)

lemma seed_gotone_events [simp]: "events (seed_gotone L) = events L"
  by (simp add: seed_gotone_def)

lemma full_version_events [simp]: "events (full_version K argc i L) = events L"
  by (simp add: full_version_def)

lemma spec_query_exists_no_print:
  assumes "pkg_exists L" "\<forall>p c. Print p c \<notin> set (events L)"
  shows "case spec_query E K argc i pat L of
           Inl r \<Rightarrow> \<forall>p c. Print p c \<notin> set (emitted r)
         | Inr L' \<Rightarrow> pkg_exists L' \<and> (\<forall>p c. Print p c \<notin> set (events L'))"
  using assms
  by (simp add: spec_query_def no_match_events it_loop_events_exists split: option.splits)

lemma spec_body_exists_no_print:
  assumes "pkg_exists L" "\<forall>p c. Print p c \<notin> set (events L)"
  shows "case spec_body E K argc i L of
           Inl r \<Rightarrow> \<forall>p c. Print p c \<notin> set (emitted r)
         | Inr L' \<Rightarrow> pkg_exists L' \<and> (\<forall>p c. Print p c \<notin> set (events L'))"
proof -
  have a: "case spec_query E K argc i pat (scan i 0 (strip_slash i (L\<lparr>gotone := False\<rparr>))) of
           Inl r \<Rightarrow> \<forall>p c. Print p c \<notin> set (emitted r)
         | Inr L' \<Rightarrow> pkg_exists L' \<and> (\<forall>p c. Print p c \<notin> set (events L'))" for pat
    by (rule spec_query_exists_no_print) (simp_all add: assms)
  have b: "case spec_query E K argc i None (L\<lparr>gotone := False\<rparr>) of
           Inl r \<Rightarrow> \<forall>p c. Print p c \<notin> set (emitted r)
         | Inr L' \<Rightarrow> pkg_exists L' \<and> (\<forall>p c. Print p c \<notin> set (events L'))"
    by (rule spec_query_exists_no_print) (simp_all add: assms)
  show ?thesis
  proof (cases "0 < argc")
    case True
    then show ?thesis
      unfolding spec_body_def Let_def using a assms by simp
  next
    case False
    then show ?thesis
      unfolding spec_body_def Let_def using b by simp
  qed
qed

lemma info_loop_exists_no_print:
  "pkg_exists L \<Longrightarrow> \<forall>p c. Print p c \<notin> set (events L) \<Longrightarrow>
     \<forall>p c. Print p c \<notin> set (emitted (info_loop E K argc i L))"
proof (induction E K argc i L rule: info_loop.induct)
  case (1 E K argc i L)
  note body = spec_body_exists_no_print [OF "1.prems", of E K argc i]
  show ?case
  proof (cases "spec_body E K argc i L")
    case (Inl r)
    with body show ?thesis
      by (simp add: info_loop_step(2) [OF Inl])
  next
    case (Inr L')
    with body have ex: "pkg_exists L'" and np: "\<forall>p c. Print p c \<notin> set (events L')"
      by simp_all
    show ?thesis
    proof (cases "Suc i < argc")
      case True
      with "1.IH" [OF Inr True ex np] show ?thesis
        by (simp add: info_loop_step(1) [OF Inr])
    next
      case False
      with np show ?thesis
        by (simp add: info_loop_step(1) [OF Inr])
    qed
  qed
qed

lemma info_defaults_frame [simp]:
  "argv (info_defaults K L) = argv L"
  "match (info_defaults K L) = match L"
  "file_arg (info_defaults K L) = file_arg L"
  "retcode (info_defaults K L) = retcode L"
  "gotone (info_defaults K L) = gotone L"
  "sign (info_defaults K L) = sign L"
  "sign2 (info_defaults K L) = sign2 L"
  "pkgversion (info_defaults K L) = pkgversion L"
  "pkgversion2 (info_defaults K L) = pkgversion2 L"
  "pkg_exists (info_defaults K L) = pkg_exists L"
  "origin_search (info_defaults K L) = origin_search L"
  "e_flag (info_defaults K L) = e_flag L"
  "events (info_defaults K L) = events L"
  by (simp_all add: info_defaults_def Let_def)

lemma force_all_frame [simp]:
  "argv (force_all n L) = argv L"
  "opt (force_all n L) = opt L"
  "file_arg (force_all n L) = file_arg L"
  "retcode (force_all n L) = retcode L"
  "gotone (force_all n L) = gotone L"
  "sign (force_all n L) = sign L"
  "sign2 (force_all n L) = sign2 L"
  "pkgversion (force_all n L) = pkgversion L"
  "pkgversion2 (force_all n L) = pkgversion2 L"
  "pkg_exists (force_all n L) = pkg_exists L"
  "origin_search (force_all n L) = origin_search L"
  "e_flag (force_all n L) = e_flag L"
  "quiet (force_all n L) = quiet L"
  "events (force_all n L) = events L"
  by (simp_all add: force_all_def)

lemma info_db_exists_no_print:
  "pkg_exists L \<Longrightarrow> \<forall>p c. Print p c \<notin> set (events L) \<Longrightarrow>
     \<forall>p c. Print p c \<notin> set (emitted (info_db E K argc L))"
  by (simp add: info_db_def info_loop_exists_no_print)

lemma info_after_getopt_exists_no_print:
  assumes "pkg_exists L" "\<forall>p c. Print p c \<notin> set (events L)" "file_arg L = None"
  shows "\<forall>p c. Print p c \<notin> set (emitted (info_after_getopt E K argc0 L))"
proof -
  have "\<forall>p c. Print p c \<notin> set (emitted (info_db E K n (info_defaults K (force_all argc0 L))))" for n
    by (rule info_db_exists_no_print) (simp_all add: assms)
  then show ?thesis
    unfolding info_after_getopt_def Let_def using assms by simp
qed

text \<open>
  C7. When \<^verbatim>\<open>-e\<close> is among the options, the option switch leaves \<^verbatim>\<open>pkg_exists\<close> set and
  \<^verbatim>\<open>retcode\<close> at 1, the code for "not found", and that is still the status when the
  loop over the specifiers is entered. In this mode the loop over the candidates never
  calls the formatter, and it sets the status to success exactly when some candidate
  survives the constraints; otherwise it leaves the status alone. The whole run on the
  database (no \<^verbatim>\<open>-F\<close> file, whose one record is no candidate of a query) hands no record
  to the formatter.
\<close>

theorem exists_only_mode:
  assumes "getopt_loop K (inv_opts call) (init_locals K call) = Inr L"
    and "CHR ''e'' \<in> fst ` set (inv_opts call)"
  shows "pkg_exists L \<and> retcode L = 1 \<and>
    retcode (info_defaults K (force_all (inv_argc call) L)) = 1 \<and>
    (\<forall>ps L'. pkg_exists L' \<longrightarrow>
       retcode (it_loop E ps L') =
         (if \<exists>p \<in> set ps. evaluator_keeps E L' (pkg_version p) then EX_OK else retcode L') \<and>
       events (it_loop E ps L') = events L') \<and>
    (file_arg L = None \<longrightarrow> (\<forall>p c. Print p c \<notin> set (emitted (exec_info E K call))))"
proof -
  have ex: "pkg_exists L \<and> retcode L = 1"
    using assms by (rule getopt_loop_exists)
  have np: "\<forall>p c. Print p c \<notin> set (events L)"
    using assms(1) by (rule getopt_loop_no_print) (simp add: init_locals_def)
  have "\<forall>p c. Print p c \<notin> set (emitted (exec_info E K call))" if "file_arg L = None"
    using info_after_getopt_exists_no_print [of L E K "inv_argc call"] ex np that assms(1)
    by (simp add: exec_info_def)
  then show ?thesis
    using ex by (simp add: it_loop_retcode_exists it_loop_events_exists)
qed

theorem exists_only_mode_witness:
  "getopt_loop pkgcli_h (inv_opts (pkg_info [(CHR ''e'', [])] [''lib*>1.0'']))
      (init_locals pkgcli_h (pkg_info [(CHR ''e'', [])] [''lib*>1.0''])) =
     Inr ((init_locals pkgcli_h (pkg_info [(CHR ''e'', [])] [''lib*>1.0'']))
            \<lparr>pkg_exists := True, retcode := 1\<rparr>) \<and>
   CHR ''e'' \<in> fst ` set (inv_opts (pkg_info [(CHR ''e'', [])] [''lib*>1.0''])) \<and>
   (\<forall>p c. Print p c \<notin> set (emitted (exec_info demo_env pkgcli_h
       (pkg_info [(CHR ''e'', [])] [''lib*>1.0'']))))"
proof -
  have g: "getopt_loop pkgcli_h (inv_opts (pkg_info [(CHR ''e'', [])] [''lib*>1.0'']))
      (init_locals pkgcli_h (pkg_info [(CHR ''e'', [])] [''lib*>1.0''])) =
     Inr ((init_locals pkgcli_h (pkg_info [(CHR ''e'', [])] [''lib*>1.0'']))
            \<lparr>pkg_exists := True, retcode := 1\<rparr>)"
    by (simp add: pkg_info_def getopt_switch_def)
  have e: "CHR ''e'' \<in> fst ` set (inv_opts (pkg_info [(CHR ''e'', [])] [''lib*>1.0'']))"
    by (simp add: pkg_info_def)
  show ?thesis
    using exists_only_mode [OF g e, of demo_env] g e
    by (simp add: init_locals_def)
qed

section \<open>The full record for a single exact specifier\<close>

lemma length_takeWhile_all:
  "length (takeWhile P xs) = length xs \<longleftrightarrow> (\<forall>x \<in> set xs. P x)"
  by (induction xs) auto

lemma strcspn_eq_strlen:
  "strcspn s reject = strlen s \<longleftrightarrow> set (c_str s 0) \<inter> set reject = {}"
  by (auto simp add: strcspn_def strlen_def length_takeWhile_all)

lemma it_loop_prints:
  "Print p c \<in> set (events (it_loop E ps L)) \<Longrightarrow> Print p c \<in> set (events L) \<or> c = opt L"
proof (induction ps arbitrary: L)
  case Nil
  then show ?case by simp
next
  case (Cons q ps)
  from Cons.prems Cons.IH show ?case
    unfolding it_loop_turn by (fastforce split: if_splits)
qed

text \<open>
  C8. With exactly one specifier, glob mode, quiet, origin search and \<^verbatim>\<open>-E\<close> off and
  the category set the bare name and version tag, a query that opens its cursor runs
  with the category set augmented by \<open>INFO_FULL\<close> when the name has none of the
  characters \<^verbatim>\<open>*[]{}()\<close>, and with the bare set when it has one; every record the query
  hands to the formatter carries that set.
\<close>

theorem single_match_full_detail:
  assumes "argc = 1" "\<not> origin_search L" "\<not> quiet L" "\<not> e_flag L" "match L = MATCH_GLOB"
    "opt L = INFO_TAG_NAMEVER K" "pkgdb_query E pat MATCH_GLOB = Some it"
  shows "\<exists>L'. spec_query E K argc i pat L = Inr L' \<and>
     opt L' = (if set (c_str (argv L ! i) 0) \<inter> set ''*[]{}()'' = {}
               then INFO_TAG_NAMEVER K OR INFO_FULL K else INFO_TAG_NAMEVER K) \<and>
     (\<forall>p c. Print p c \<in> set (events L') \<longrightarrow> Print p c \<in> set (events L) \<or> c = opt L')"
proof -
  define L4 where "L4 = seed_gotone (L\<lparr>events := events L @ [Query pat (match L)]\<rparr>)"
  define L6 where "L6 = full_version K argc i L4"
  define L' where "L' = no_match i (it_end it (it_loop E (it_pkgs it) L6))"
  have q: "spec_query E K argc i pat L = Inr L'"
    using assms(5,7) by (simp add: spec_query_def L'_def L6_def L4_def)
  have o6: "opt L6 = (if set (c_str (argv L ! i) 0) \<inter> set ''*[]{}()'' = {}
               then INFO_TAG_NAMEVER K OR INFO_FULL K else INFO_TAG_NAMEVER K)"
    using assms(1-6) by (simp add: L6_def L4_def full_version_def strcspn_eq_strlen)
  have o: "opt L' = opt L6"
    by (simp add: L'_def)
  have e6: "events L6 = events L @ [Query pat (match L)]"
    by (simp add: L6_def L4_def)
  have pr: "Print p c \<in> set (events L) \<or> c = opt L'" if "Print p c \<in> set (events L')" for p c
  proof -
    from that have "Print p c \<in> set (events (it_loop E (it_pkgs it) L6))"
      by (simp add: L'_def no_match_events)
    then have "Print p c \<in> set (events L6) \<or> c = opt L6"
      by (rule it_loop_prints)
    then show ?thesis
      by (auto simp add: e6 o)
  qed
  have o': "opt L' = (if set (c_str (argv L ! i) 0) \<inter> set ''*[]{}()'' = {}
               then INFO_TAG_NAMEVER K OR INFO_FULL K else INFO_TAG_NAMEVER K)"
    using o o6 by simp
  show ?thesis
    using q o' pr by (intro exI [of _ L']) blast
qed

theorem single_match_full_detail_witness:
  "(\<exists>L'. spec_query demo_env pkgcli_h 1 0 (Some ''libfoo'') single_arg = Inr L' \<and>
      opt L' = INFO_TAG_NAMEVER pkgcli_h OR INFO_FULL pkgcli_h) \<and>
   (\<exists>L'. spec_query demo_env pkgcli_h 1 0 (Some ''lib*'') glob_arg = Inr L' \<and>
      opt L' = INFO_TAG_NAMEVER pkgcli_h)"
proof -
  have q: "pkgdb_query demo_env (Some ''libfoo'') MATCH_GLOB = Some \<lparr>it_pkgs = [libfoo], it_stop = EPKG_END\<rparr>"
    by (simp add: demo_env_def demo_query_def)
  have q': "pkgdb_query demo_env (Some ''lib*'') MATCH_GLOB = Some \<lparr>it_pkgs = [libfoo, libbar], it_stop = EPKG_END\<rparr>"
    by (simp add: demo_env_def demo_query_def)
  have n: "set (c_str (argv single_arg ! 0) 0) \<inter> set ''*[]{}()'' = {}"
    by (simp add: single_arg_def init_locals_def pkg_info_def c_str_def NUL_def)
  have n': "set (c_str (argv glob_arg ! 0) 0) \<inter> set ''*[]{}()'' \<noteq> {}"
    by (simp add: glob_arg_def init_locals_def pkg_info_def c_str_def NUL_def)
  have a: "\<exists>L'. spec_query demo_env pkgcli_h 1 0 (Some ''libfoo'') single_arg = Inr L' \<and>
      opt L' = INFO_TAG_NAMEVER pkgcli_h OR INFO_FULL pkgcli_h"
    using single_match_full_detail [of 1 single_arg pkgcli_h demo_env "Some ''libfoo''" _ 0, OF _ _ _ _ _ _ q] n
    by (simp add: single_arg_def init_locals_def pkg_info_def c_str_def NUL_def) blast
  have b: "\<exists>L'. spec_query demo_env pkgcli_h 1 0 (Some ''lib*'') glob_arg = Inr L' \<and>
      opt L' = INFO_TAG_NAMEVER pkgcli_h"
    using single_match_full_detail [of 1 glob_arg pkgcli_h demo_env "Some ''lib*''" _ 0, OF _ _ _ _ _ _ q'] n'
    by (simp add: glob_arg_def init_locals_def pkg_info_def c_str_def NUL_def) blast
  from a b show ?thesis by blast
qed

section \<open>Origin search\<close>

text \<open>
  The invariant of the loop over the specifiers in an origin search without \<^verbatim>\<open>-e\<close> and
  without version operators: the status is still success and no constraint is in force.
\<close>

definition origin_inv :: "locals \<Rightarrow> bool" where
  "origin_inv L =
     (origin_search L \<and> \<not> pkg_exists L \<and> retcode L = EX_OK \<and> pkgversion L = None \<and>
      pkgversion2 L = None \<and> (\<forall>a \<in> set (argv L). no_operator a))"

lemma scan_step_no_operator:
  "no_operator (argv L ! i) \<Longrightarrow> char_at (argv L ! i) j \<noteq> NUL \<Longrightarrow> scan_step i j L = (L, j)"
  by (auto simp add: scan_step_def char_at_def no_operator_def Let_def split: if_splits)

lemma scan_no_operator: "no_operator (argv L ! i) \<Longrightarrow> scan i j L = L"
proof (induction i j L rule: scan.induct)
  case (1 i j L)
  show ?case
  proof (cases "char_at (argv L ! i) j = NUL")
    case True
    then show ?thesis by (rule scan_unfold(2))
  next
    case False
    then have st: "scan_step i j L = (L, j)"
      using "1.prems" by (simp add: scan_step_no_operator)
    from "1.IH" [OF False] "1.prems" have "scan i (Suc j) L = L"
      by (simp add: st)
    then show ?thesis
      using scan_unfold(1) [OF False] by (simp add: st)
  qed
qed

lemma no_operator_update: "no_operator s \<Longrightarrow> no_operator (s[k := NUL])"
  unfolding no_operator_def
  using set_update_subset_insert [of s k NUL] by (auto simp add: NUL_def)

lemma strip_slash_no_operator:
  assumes "\<forall>a \<in> set (argv L). no_operator a"
  shows "\<forall>a \<in> set (argv (strip_slash i L)). no_operator a"
proof (cases "i < length (argv L)")
  case True
  then have "no_operator (argv L ! i)"
    using assms by simp
  then have "no_operator ((argv L ! i)[k := NUL])" for k
    by (rule no_operator_update)
  then show ?thesis
    using assms set_update_subset_insert [of "argv L" i]
    by (auto simp add: strip_slash_def poke_nul_def Let_def)
next
  case False
  then show ?thesis
    using assms by (simp add: strip_slash_def poke_nul_def Let_def list_update_beyond)
qed

lemma it_loop_unconstrained:
  "pkgversion L = None \<Longrightarrow> pkgversion2 L = None \<Longrightarrow> \<not> pkg_exists L \<Longrightarrow> gotone L \<Longrightarrow>
     gotone (it_loop E ps L)"
  by (induction ps arbitrary: L) (simp_all add: Let_def)

lemma spec_query_origin:
  assumes "origin_inv L" "pkgdb_query E pat (match L) = Some \<lparr>it_pkgs = ps, it_stop = EPKG_END\<rparr>"
  shows "\<exists>L'. spec_query E K argc i pat L = Inr L' \<and> origin_inv L' \<and>
     length (argv L') = length (argv L)"
proof -
  define L6 where "L6 = full_version K argc i (seed_gotone
                    (L\<lparr>events := events L @ [Query pat (match L)]\<rparr>))"
  define L7 where "L7 = it_loop E ps L6"
  have g6: "gotone L6"
    using assms(1) by (simp add: L6_def origin_inv_def full_version_def seed_gotone_def)
  have f6: "pkgversion L6 = None" "pkgversion2 L6 = None" "\<not> pkg_exists L6" "retcode L6 = EX_OK"
    using assms(1) by (simp_all add: L6_def origin_inv_def)
  have g7: "gotone L7"
    unfolding L7_def using f6(1,2,3) g6 by (rule it_loop_unconstrained)
  have r7: "retcode L7 = EX_OK"
    unfolding L7_def using f6 by (simp add: it_loop_retcode_plain)
  have e: "it_end \<lparr>it_pkgs = ps, it_stop = EPKG_END\<rparr> L7 = L7"
    by (simp add: it_end_def)
  have n: "no_match i L7 = L7"
    using g7 by (simp add: no_match_def)
  have q: "spec_query E K argc i pat L = Inr L7"
    using assms(2) by (simp add: spec_query_def L7_def L6_def e [unfolded L7_def L6_def] n [unfolded L7_def L6_def])
  have "origin_inv L7"
    using assms(1) r7 by (simp add: origin_inv_def L7_def L6_def)
  moreover have "length (argv L7) = length (argv L)"
    by (simp add: L7_def L6_def)
  ultimately show ?thesis
    using q by blast
qed

lemma spec_body_origin:
  assumes "origin_inv L"
    "\<forall>pat m. \<exists>ps. pkgdb_query E pat m = Some \<lparr>it_pkgs = ps, it_stop = EPKG_END\<rparr>"
    "0 < argc \<longrightarrow> i < length (argv L)"
  shows "\<exists>L'. spec_body E K argc i L = Inr L' \<and> origin_inv L' \<and>
     length (argv L') = length (argv L)"
proof (cases "0 < argc")
  case True
  define L2 where "L2 = strip_slash i (L\<lparr>gotone := False\<rparr>)"
  have ops: "\<forall>a \<in> set (argv L2). no_operator a"
    unfolding L2_def using assms(1) by (intro strip_slash_no_operator) (simp add: origin_inv_def)
  have len: "length (argv L2) = length (argv L)"
    by (simp add: L2_def)
  with True assms(3) have "no_operator (argv L2 ! i)"
    using ops by simp
  then have scan: "scan i 0 L2 = L2"
    by (rule scan_no_operator)
  have inv2: "origin_inv L2"
    using assms(1) ops by (simp add: origin_inv_def L2_def)
  show ?thesis
  proof (cases "match L2 \<noteq> MATCH_ALL \<and> char_at (argv L2 ! i) 0 = NUL")
    case rej: True
    then have "spec_body E K argc i L =
        Inr (L2\<lparr>events := events L2 @ [Stderr ''Pattern must not be empty.'']\<rparr>)"
      unfolding spec_body_def Let_def L2_def [symmetric] scan using True by simp
    moreover have "origin_inv (L2\<lparr>events := events L2 @ [Stderr ''Pattern must not be empty.'']\<rparr>)"
      using inv2 by (simp add: origin_inv_def)
    ultimately show ?thesis
      using len by simp
  next
    case False
    then have b: "spec_body E K argc i L = spec_query E K argc i (Some (c_str (argv L2 ! i) 0)) L2"
      unfolding spec_body_def Let_def L2_def [symmetric] scan using True by auto
    from assms(2) obtain ps where
      "pkgdb_query E (Some (c_str (argv L2 ! i) 0)) (match L2) = Some \<lparr>it_pkgs = ps, it_stop = EPKG_END\<rparr>"
      by blast
    from spec_query_origin [OF inv2 this, of K argc i] show ?thesis
      using len by (simp add: b)
  qed
next
  case False
  define L1 where "L1 = L\<lparr>gotone := False\<rparr>"
  have inv1: "origin_inv L1"
    using assms(1) by (simp add: origin_inv_def L1_def)
  have b: "spec_body E K argc i L = spec_query E K argc i None L1"
    using False by (simp add: spec_body_def Let_def L1_def)
  from assms(2) obtain ps where
    "pkgdb_query E None (match L1) = Some \<lparr>it_pkgs = ps, it_stop = EPKG_END\<rparr>"
    by blast
  from spec_query_origin [OF inv1 this, of K argc i] show ?thesis
    by (simp add: b L1_def)
qed

lemma info_loop_origin:
  "origin_inv L \<Longrightarrow>
   \<forall>pat m. \<exists>ps. pkgdb_query E pat m = Some \<lparr>it_pkgs = ps, it_stop = EPKG_END\<rparr> \<Longrightarrow>
   argc \<le> length (argv L) \<Longrightarrow> (0 < argc \<longrightarrow> i < argc) \<Longrightarrow>
   status (info_loop E K argc i L) = EX_OK"
proof (induction E K argc i L rule: info_loop.induct)
  case (1 E K argc i L)
  have "0 < argc \<longrightarrow> i < length (argv L)"
    using "1.prems"(3,4) by auto
  from spec_body_origin [OF "1.prems"(1,2) this, of K]
  obtain L' where body: "spec_body E K argc i L = Inr L'" and inv: "origin_inv L'"
    and len: "length (argv L') = length (argv L)"
    by blast
  show ?case
  proof (cases "Suc i < argc")
    case True
    have "status (info_loop E K argc (Suc i) L') = EX_OK"
      using "1.IH" [OF body True inv "1.prems"(2)] len "1.prems"(3) True by simp
    then show ?thesis
      using True by (simp add: info_loop_step(1) [OF body])
  next
    case False
    then show ?thesis
      using inv by (simp add: info_loop_step(1) [OF body] origin_inv_def)
  qed
qed

lemma getopt_switch_frame:
  "getopt_switch K ch a L0 = Some L1 \<Longrightarrow>
     argv L1 = argv L0 \<and> pkgversion L1 = pkgversion L0 \<and> pkgversion2 L1 = pkgversion2 L0 \<and>
     (pkg_exists L0 \<longrightarrow> pkg_exists L1) \<and> (\<not> pkg_exists L1 \<longrightarrow> retcode L1 = retcode L0)"
  by (auto simp add: getopt_switch_def split: if_splits)

lemma getopt_loop_frame:
  "getopt_loop K os L0 = Inr L \<Longrightarrow>
     argv L = argv L0 \<and> pkgversion L = pkgversion L0 \<and> pkgversion2 L = pkgversion2 L0 \<and>
     (pkg_exists L0 \<longrightarrow> pkg_exists L) \<and> (\<not> pkg_exists L \<longrightarrow> retcode L = retcode L0)"
proof (induction os arbitrary: L0)
  case Nil
  then show ?case by simp
next
  case (Cons x os)
  obtain ch a where x: "x = (ch, a)" by (cases x)
  from Cons.prems(1) obtain L1 where sw: "getopt_switch K ch a L0 = Some L1"
    and rest: "getopt_loop K os L1 = Inr L"
    by (auto simp add: x split: option.splits)
  from getopt_switch_frame [OF sw] Cons.IH [OF rest] show ?case
    by auto
qed

text \<open>
  C6 (as amended). With origin search on, the seed of lines 337 and 338 leaves
  \<^verbatim>\<open>gotone\<close> true before the candidates are read. When moreover exists-only mode is off,
  no package file is given, the database is absent or opens, every cursor opens and
  ends cleanly, and no specifier carries a version operator, the exit status is
  success, whatever the specifiers match.
\<close>

theorem origin_search_success:
  assumes "getopt_loop K (inv_opts call) (init_locals K call) = Inr L"
    and "origin_search L" and "\<not> pkg_exists L" and "file_arg L = None"
    and "pkgdb_access E = EPKG_ENODB \<or> (pkgdb_access E = EPKG_OK \<and> pkgdb_open E = EPKG_OK)"
    and "\<forall>pat m. \<exists>ps. pkgdb_query E pat m = Some \<lparr>it_pkgs = ps, it_stop = EPKG_END\<rparr>"
    and "\<forall>a \<in> set (inv_args call). no_operator a"
  shows "(\<forall>X. origin_search X \<longrightarrow> gotone (seed_gotone X)) \<and> status (exec_info E K call) = EX_OK"
proof -
  from getopt_loop_frame [OF assms(1)] assms(3)
  have f: "argv L = inv_args call" "pkgversion L = None" "pkgversion2 L = None" "retcode L = EX_OK"
    by (simp_all add: init_locals_def EX_OK_def)
  define L2 where "L2 = info_defaults K (force_all (inv_argc call) L)"
  have inv: "origin_inv L2"
    using f assms(2,3,7) by (simp add: origin_inv_def L2_def)
  have loop: "status (info_loop E K (length (argv L)) 0 L2) = EX_OK"
    using inv assms(6) by (rule info_loop_origin) (simp_all add: L2_def)
  have db: "status (info_db E K (length (argv L)) L2) = EX_OK"
    using assms(5) loop assms(2) by (auto simp add: info_db_def L2_def)
  have "status (info_after_getopt E K (inv_argc call) L) = EX_OK"
    unfolding info_after_getopt_def Let_def L2_def [symmetric]
    using db assms(2,4) by (simp add: L2_def)
  then show ?thesis
    using assms(1,2) by (simp add: exec_info_def seed_gotone_def)
qed

theorem origin_search_success_witness:
  "getopt_loop pkgcli_h (inv_opts (pkg_info [(CHR ''O'', [])] [''nomatch'']))
      (init_locals pkgcli_h (pkg_info [(CHR ''O'', [])] [''nomatch''])) =
     Inr ((init_locals pkgcli_h (pkg_info [(CHR ''O'', [])] [''nomatch'']))\<lparr>origin_search := True\<rparr>) \<and>
   inv_args (pkg_info [(CHR ''O'', [])] [''nomatch'']) = [''nomatch''] \<and>
   no_operator ''nomatch'' \<and>
   status (exec_info demo_env pkgcli_h (pkg_info [(CHR ''O'', [])] [''nomatch''])) = EX_OK"
proof -
  have g: "getopt_loop pkgcli_h (inv_opts (pkg_info [(CHR ''O'', [])] [''nomatch'']))
      (init_locals pkgcli_h (pkg_info [(CHR ''O'', [])] [''nomatch''])) =
     Inr ((init_locals pkgcli_h (pkg_info [(CHR ''O'', [])] [''nomatch'']))\<lparr>origin_search := True\<rparr>)"
    by (simp add: pkg_info_def getopt_switch_def)
  have n: "\<forall>a \<in> set (inv_args (pkg_info [(CHR ''O'', [])] [''nomatch''])). no_operator a"
    by (simp add: pkg_info_def no_operator_def)
  have q: "\<forall>pat m. \<exists>ps. pkgdb_query demo_env pat m = Some \<lparr>it_pkgs = ps, it_stop = EPKG_END\<rparr>"
    by (simp add: demo_env_def demo_query_def)
  have "status (exec_info demo_env pkgcli_h (pkg_info [(CHR ''O'', [])] [''nomatch''])) = EX_OK"
    using origin_search_success [OF g _ _ _ _ q n]
    by (simp add: init_locals_def demo_env_def)
  with g show ?thesis
    by (simp add: pkg_info_def no_operator_def)
qed

text \<open>
  C6 fails as stated: \<^verbatim>\<open>pkg info -O -e nomatch\<close>. Origin search is on and the specifier
  matches nothing; \<^verbatim>\<open>-e\<close> has set the status to 1, line 415 leaves a status other than
  \<open>EX_OK\<close> alone, and the run returns 1.
\<close>

theorem origin_search_counterexample:
  "exec_info demo_env pkgcli_h (pkg_info [(CHR ''O'', []), (CHR ''e'', [])] [''nomatch'']) =
     \<lparr>status = 1, emitted = [Query (Some ''nomatch'') MATCH_GLOB]\<rparr> \<and> 1 \<noteq> EX_OK"
  by code_simp

end
